theory Spec2Isabelle
  imports Main "HOL-Library.AList" "HOL-Library.Multiset"
begin

section \<open>JavaScript values\<close>

text \<open>
  The values the event store and the aggregate runtime handle are plain JavaScript data:
  events, commands, contexts, identifiers and payloads. An array is the list of its
  elements. An object is an association list of its own enumerable string-keyed
  properties, of which the first binding of a key counts, together with its prototype:
  \<open>None\<close> for \<^verbatim>\<open>Object.prototype\<close>, which every object literal and every object made
  by \<^verbatim>\<open>JSON.parse\<close> has, \<open>Some Null\<close> for no prototype, and \<open>Some v\<close> for the
  object \<open>v\<close>. \<open>Obj kvs\<close> is the object with the properties \<open>kvs\<close> and the prototype
  \<^verbatim>\<open>Object.prototype\<close>. The order of the keys is of no consequence here. Numbers are
  the integer-valued ones (identifiers and versions). Functions are no values of this
  type: where the code takes a callback, the model takes a parameter.
\<close>

datatype jsval =
    Undefined
  | Null
  | Bool bool
  | Num int
  | Str string
  | Arr "jsval list"
  | ObjP "(string \<times> jsval) list" "jsval option"

abbreviation Obj :: "(string \<times> jsval) list \<Rightarrow> jsval" where
  "Obj kvs \<equiv> ObjP kvs None"

datatype js_error =
    TypeError string
  | Error string
  | SyntaxError string
  | Failure jsval  \<comment> \<open>a value thrown or rejected by a collaborator or a callback\<close>

text \<open>\<^verbatim>\<open>!!v\<close>\<close>

fun truthy :: "jsval \<Rightarrow> bool" where
  "truthy Undefined = False"
| "truthy Null = False"
| "truthy (Bool b) = b"
| "truthy (Num n) = (n \<noteq> 0)"
| "truthy (Str s) = (s \<noteq> [])"
| "truthy (Arr xs) = True"
| "truthy (ObjP kvs p) = True"

text \<open>\<^verbatim>\<open>typeof v\<close>\<close>

fun typeof :: "jsval \<Rightarrow> string" where
  "typeof Undefined = ''undefined''"
| "typeof Null = ''object''"
| "typeof (Bool b) = ''boolean''"
| "typeof (Num n) = ''number''"
| "typeof (Str s) = ''string''"
| "typeof (Arr xs) = ''object''"
| "typeof (ObjP kvs p) = ''object''"

text \<open>The values that are objects.\<close>

fun is_object :: "jsval \<Rightarrow> bool" where
  "is_object (Arr xs) = True"
| "is_object (ObjP kvs p) = True"
| "is_object v = False"

text \<open>Decimal digits of a natural number, as in the key of an array index.\<close>

fun digits_of :: "nat \<Rightarrow> string" where
  "digits_of n =
     (if n < 10 then [char_of (48 + n)]
      else digits_of (n div 10) @ [char_of (48 + n mod 10)])"

declare digits_of.simps [simp del]

definition index_key :: "nat \<Rightarrow> string" where
  "index_key n = digits_of n"

text \<open>
  The own enumerable string-keyed properties of a value, each key once, as
  \<^verbatim>\<open>Object.assign\<close> reads them from a source: the properties of an object, the
  indices of an array, the characters of a string, and nothing for the other primitives.
\<close>

fun own_props :: "jsval \<Rightarrow> (string \<times> jsval) list" where
  "own_props (ObjP kvs p) = AList.clearjunk kvs"
| "own_props (Arr xs) = zip (map index_key [0..<length xs]) xs"
| "own_props (Str s) = zip (map index_key [0..<length s]) (map (\<lambda>c. Str [c]) s)"
| "own_props v = []"

text \<open>
  \<^verbatim>\<open>v[k]\<close> for a value \<open>v\<close> that is neither undefined nor null: an own property,
  or else the property of the prototype; an absent property reads as undefined, and
  strings and arrays have a \<^verbatim>\<open>length\<close>. The keys the code reads are \<^verbatim>\<open>type\<close>,
  \<^verbatim>\<open>aggregateId\<close>, \<^verbatim>\<open>sagaId\<close>, \<^verbatim>\<open>sagaVersion\<close>, \<^verbatim>\<open>context\<close>,
  \<^verbatim>\<open>hostname\<close>, \<^verbatim>\<open>sourceCommand\<close>, \<^verbatim>\<open>queueName\<close> and \<^verbatim>\<open>length\<close>; the
  methods that \<^verbatim>\<open>Object.prototype\<close> and the other built-in prototypes hold under
  other keys are not part of this function.
\<close>

fun read_prop :: "jsval \<Rightarrow> string \<Rightarrow> jsval" where
  "read_prop (ObjP kvs p) k =
     (case map_of kvs k of
        Some v \<Rightarrow> v
      | None \<Rightarrow> (case p of None \<Rightarrow> Undefined | Some proto \<Rightarrow> read_prop proto k))"
| "read_prop (Arr xs) k =
     (if k = ''length'' then Num (int (length xs))
      else case map_of (own_props (Arr xs)) k of None \<Rightarrow> Undefined | Some v \<Rightarrow> v)"
| "read_prop (Str s) k =
     (if k = ''length'' then Num (int (length s))
      else case map_of (own_props (Str s)) k of None \<Rightarrow> Undefined | Some v \<Rightarrow> v)"
| "read_prop v k = Undefined"

text \<open>\<^verbatim>\<open>v[k]\<close> for any value: reading a property of undefined or null throws.\<close>

definition get_prop :: "jsval \<Rightarrow> string \<Rightarrow> js_error + jsval" where
  "get_prop v k =
     (if v = Undefined \<or> v = Null
      then Inl (TypeError ''Cannot read properties of undefined or null'')
      else Inr (read_prop v k))"

text \<open>
  An assignment \<^verbatim>\<open>target[k] = v\<close> to an object of data properties. It makes or
  updates an own property, but for the key \<^verbatim>\<open>__proto__\<close>: unless the target or an
  object on its prototype chain has an own property of that name, or the chain ends
  without reaching \<^verbatim>\<open>Object.prototype\<close>, the assignment runs the setter of
  \<^verbatim>\<open>Object.prototype\<close>, which makes an object or null the prototype of the target and
  ignores any other value.
\<close>

fun has_proto_setter :: "jsval \<Rightarrow> bool" where
  "has_proto_setter (ObjP kvs p) =
     (map_of kvs ''__proto__'' = None \<and>
      (case p of None \<Rightarrow> True | Some proto \<Rightarrow> has_proto_setter proto))"
| "has_proto_setter (Arr xs) = True"
| "has_proto_setter v = False"

definition assign_prop :: "string \<Rightarrow> jsval \<Rightarrow> (string \<times> jsval) list \<times> jsval option \<Rightarrow> (string \<times> jsval) list \<times> jsval option" where
  "assign_prop k v target =
     (case target of
        (props, proto) \<Rightarrow>
          if k = ''__proto__'' \<and> has_proto_setter (ObjP props proto)
          then (if is_object v \<or> v = Null then (props, Some v) else (props, proto))
          else (AList.update k v props, proto))"

text \<open>
  \<^verbatim>\<open>Object.assign(target, ...sources)\<close> for a fresh object \<open>target\<close> given by its
  properties: every own property of every source is assigned to the target, the sources
  from left to right.
\<close>

definition assign_props :: "(string \<times> jsval) list \<times> jsval option \<Rightarrow> (string \<times> jsval) list \<Rightarrow> (string \<times> jsval) list \<times> jsval option" where
  "assign_props target ps = fold (\<lambda>(k, v). assign_prop k v) ps target"

definition Object_assign :: "(string \<times> jsval) list \<Rightarrow> jsval list \<Rightarrow> jsval" where
  "Object_assign target sources =
     (case fold (\<lambda>src t. assign_props t (own_props src)) sources (target, None) of
        (props, proto) \<Rightarrow> ObjP props proto)"

text \<open>
  The prototype that an own \<^verbatim>\<open>__proto__\<close> property of a source gives a fresh target:
  its value when that is an object or null.
\<close>

definition assigned_prototype :: "jsval \<Rightarrow> jsval option" where
  "assigned_prototype src =
     (case map_of (own_props src) ''__proto__'' of
        None \<Rightarrow> None
      | Some v \<Rightarrow> if is_object v \<or> v = Null then Some v else None)"

section \<open>The event store\<close>

text \<open>
  The outcome of an \<^verbatim>\<open>async\<close> method or of a promise awaited: it resolves to a
  value, it rejects with an error (an exception thrown in the body of an \<^verbatim>\<open>async\<close>
  method rejects its promise), or it never settles.
\<close>

datatype 'a promise = Resolved 'a | Rejected js_error | Pending

text \<open>
  What a call \<^verbatim>\<open>this[_bus].publish(event)\<close> does: it returns a promise that fulfils
  (or a value that is no promise), it returns a promise that rejects, it throws, or it
  returns a promise that never settles. The number of a rejection is the moment at which
  the promise settles: of several promises that reject, \<^verbatim>\<open>Promise.all\<close> takes the
  one that settles first.
\<close>

datatype publish_outcome = Fulfils | Rejects nat js_error | Throws js_error | Pends

text \<open>
  \<^verbatim>\<open>this[_bus]\<close>: null when the storage is the emitter, or a bus. The constructor asks
  a message bus for an \<^verbatim>\<open>on\<close> method only, so a bus may be without a \<^verbatim>\<open>publish\<close>.
\<close>

datatype message_bus = No_bus | Bus_without_publish | Bus "jsval \<Rightarrow> publish_outcome"

text \<open>
  The store, after its constructor: the frozen configuration (\<^verbatim>\<open>hostname\<close> a string
  when given, \<^verbatim>\<open>publishAsync\<close> a boolean defaulting to true), the validator, and the
  collaborators. The storage's \<^verbatim>\<open>commitEvents\<close> is awaited and its value is not used:
  \<open>Resolved ()\<close> stands for a promise that fulfils (or a value that is no promise),
  \<open>Rejected e\<close> for a failure with \<open>e\<close>, thrown or rejected, and \<open>Pending\<close> for a
  promise that never settles.
  \<open>emitter_supportsQueues\<close> is the value of \<^verbatim>\<open>emitterSupportsQueues(this[_emitter])\<close>,
  the capability flag of the emitter's class.
\<close>

record store =
  config_hostname :: "string option"
  config_publishAsync :: bool
  validator :: "jsval \<Rightarrow> js_error option"
  storage_commitEvents :: "jsval list \<Rightarrow> unit promise"
  bus :: message_bus
  emitter_supportsQueues :: bool

text \<open>
  What a commit does to the collaborators: the stream of every call of the storage's
  \<^verbatim>\<open>commitEvents\<close>, the event of every call of the bus's \<^verbatim>\<open>publish\<close>, and the
  stream of every publication handed to \<^verbatim>\<open>setImmediate\<close>, each in call order.
\<close>

record effects =
  commitEvents_calls :: "jsval list list"
  publish_calls :: "jsval list"
  setImmediate_calls :: "jsval list list"

definition hostname_val :: "string option \<Rightarrow> jsval" where
  "hostname_val h = (case h of None \<Rightarrow> Undefined | Some s \<Rightarrow> Str s)"

text \<open>\<^verbatim>\<open>validateEvent\<close>: \<open>None\<close> when the event passes, the error thrown otherwise.\<close>

definition validateEvent :: "jsval \<Rightarrow> js_error option" where
  "validateEvent event =
     (if typeof event \<noteq> ''object'' \<or> \<not> truthy event
      then Some (TypeError ''event must be an Object'')
      else if typeof (read_prop event ''type'') \<noteq> ''string''
              \<or> \<not> truthy (read_prop (read_prop event ''type'') ''length'')
      then Some (TypeError ''event.type must be a non-empty String'')
      else if \<not> truthy (read_prop event ''aggregateId'') \<and> \<not> truthy (read_prop event ''sagaId'')
      then Some (TypeError ''either event.aggregateId or event.sagaId is required'')
      else if truthy (read_prop event ''sagaId'')
              \<and> typeof (read_prop event ''sagaVersion'') = ''undefined''
      then Some (TypeError ''event.sagaVersion is required, when event.sagaId is defined'')
      else None)"

text \<open>
  Modelled from the spec: \<^verbatim>\<open>EventStream.from(events, mapper)\<close>, of the module
  \<^verbatim>\<open>./EventStream\<close>: "construction from a raw sequence with an optional per-element
  transform (used by augmentation)"; the stream is the sequence of the transformed events.
  Its "human-readable description (for diagnostics)", which the log lines of
  \<^verbatim>\<open>commit\<close> print, is taken to return and to leave the stream as it is.
\<close>

definition EventStream_from :: "jsval list \<Rightarrow> (jsval \<Rightarrow> jsval) \<Rightarrow> jsval list" where
  "EventStream_from events mapper = map mapper events"

text \<open>
  \<^verbatim>\<open>augmentEvents(events, sourceCommand = {}, { hostname })\<close>. Destructuring
  \<^verbatim>\<open>sourceCommand\<close> throws when it is null.
\<close>

definition extension_of :: "jsval \<Rightarrow> jsval \<Rightarrow> js_error + jsval" where
  "extension_of sourceCommand hostname =
     (let sourceCommand = (if sourceCommand = Undefined then Obj [] else sourceCommand) in
      if sourceCommand = Null
      then Inl (TypeError ''Cannot destructure null'')
      else
        let sagaId = read_prop sourceCommand ''sagaId'';
            sagaVersion = read_prop sourceCommand ''sagaVersion'';
            context = read_prop sourceCommand ''context''
        in Inr (Obj [(''sagaId'', sagaId),
                     (''sagaVersion'', sagaVersion),
                     (''context'',
                        if truthy hostname
                        then Object_assign [(''hostname'', hostname)] [context]
                        else context)]))"

definition augmentEvents :: "jsval \<Rightarrow> jsval \<Rightarrow> jsval \<Rightarrow> js_error + jsval list" where
  "augmentEvents events sourceCommand hostname =
     (case events of
        Arr evs \<Rightarrow>
          (case extension_of sourceCommand hostname of
             Inl e \<Rightarrow> Inl e
           | Inr extension \<Rightarrow>
               Inr (EventStream_from evs (\<lambda>event. Object_assign [] [extension, event])))
      | _ \<Rightarrow> Inl (TypeError ''events argument must be an Array''))"

text \<open>
  The first failure of \<open>f\<close> over a list, in list order: what a \<^verbatim>\<open>forEach\<close> of a
  throwing callback throws.
\<close>

fun first_failure :: "('a \<Rightarrow> js_error option) \<Rightarrow> 'a list \<Rightarrow> js_error option" where
  "first_failure f [] = None"
| "first_failure f (x # xs) = (case f x of Some e \<Rightarrow> Some e | None \<Rightarrow> first_failure f xs)"

text \<open>
  \<^verbatim>\<open>eventStream.map(event => this[_bus].publish(event))\<close>: the events on which
  \<^verbatim>\<open>publish\<close> is called, which are those up to the first on which it throws, and
  the error thrown, if any.
\<close>

fun published :: "(jsval \<Rightarrow> publish_outcome) \<Rightarrow> jsval list \<Rightarrow> jsval list" where
  "published publish [] = []"
| "published publish (event # events) =
     (case publish event of
        Throws e \<Rightarrow> [event]
      | _ \<Rightarrow> event # published publish events)"

fun first_thrown :: "(jsval \<Rightarrow> publish_outcome) \<Rightarrow> jsval list \<Rightarrow> js_error option" where
  "first_thrown publish [] = None"
| "first_thrown publish (event # events) =
     (case publish event of
        Throws e \<Rightarrow> Some e
      | _ \<Rightarrow> first_thrown publish events)"

text \<open>
  \<^verbatim>\<open>Promise.all\<close>: the rejection that settles first, the earlier in the list of two
  that settle at the same moment; \<open>None\<close> when no promise rejects.
\<close>

fun earliest_rejection :: "publish_outcome list \<Rightarrow> (nat \<times> js_error) option" where
  "earliest_rejection [] = None"
| "earliest_rejection (Rejects t e # outcomes) =
     (case earliest_rejection outcomes of
        None \<Rightarrow> Some (t, e)
      | Some (t', e') \<Rightarrow> if t \<le> t' then Some (t, e) else Some (t', e'))"
| "earliest_rejection (outcome # outcomes) = earliest_rejection outcomes"

text \<open>
  \<^verbatim>\<open>publishEvents\<close>, awaited: it fails with the error that a \<^verbatim>\<open>publish\<close> call
  throws, or else with the rejection that \<^verbatim>\<open>Promise.all\<close> takes; it never settles
  when no publication fails and one never settles; it resolves when every publication
  fulfils. With it come the effects with the calls of \<^verbatim>\<open>publish\<close>.
\<close>

definition publishEvents :: "(jsval \<Rightarrow> publish_outcome) \<Rightarrow> jsval list \<Rightarrow> effects \<Rightarrow> unit promise \<times> effects" where
  "publishEvents publish eventStream fx =
     ((case first_thrown publish eventStream of
         Some e \<Rightarrow> Rejected e
       | None \<Rightarrow>
           (case earliest_rejection (map publish eventStream) of
              Some (t, e) \<Rightarrow> Rejected e
            | None \<Rightarrow>
                if Pends \<in> set (map publish eventStream) then Pending else Resolved ())),
      fx\<lparr>publish_calls := publish_calls fx @ published publish eventStream\<rparr>)"

text \<open>
  The parameter \<^verbatim>\<open>{ sourceCommand } = {}\<close> of \<^verbatim>\<open>commit\<close>: the default applies to an
  omitted argument, and destructuring null throws.
\<close>

definition sourceCommand_of :: "jsval \<Rightarrow> js_error + jsval" where
  "sourceCommand_of options =
     (if options = Undefined then Inr Undefined else get_prop options ''sourceCommand'')"

text \<open>
  \<^verbatim>\<open>EventStore.commit(events, { sourceCommand } = {})\<close>, from the effects so far to
  the outcome of the call and the effects after it.
\<close>

definition commit :: "store \<Rightarrow> jsval \<Rightarrow> jsval \<Rightarrow> effects \<Rightarrow> jsval promise \<times> effects" where
  "commit st events options fx =
     (case sourceCommand_of options of
        Inl e \<Rightarrow> (Rejected e, fx)
      | Inr sourceCommand \<Rightarrow>
          (case events of
             Arr evs \<Rightarrow>
               if \<not> truthy (read_prop events ''length'') then (Resolved events, fx)
               else
                 (case augmentEvents events sourceCommand (hostname_val (config_hostname st)) of
                    Inl e \<Rightarrow> (Rejected e, fx)
                  | Inr eventStream \<Rightarrow>
                      (case first_failure (validator st) eventStream of
                         Some e \<Rightarrow> (Rejected e, fx)
                       | None \<Rightarrow>
                           let fx = fx\<lparr>commitEvents_calls := commitEvents_calls fx @ [eventStream]\<rparr> in
                           (case storage_commitEvents st eventStream of
                              Rejected e \<Rightarrow> (Rejected e, fx)
                            | Pending \<Rightarrow> (Pending, fx)
                            | Resolved u \<Rightarrow>
                                (case bus st of
                                   No_bus \<Rightarrow> (Resolved (Arr eventStream), fx)
                                 | Bus_without_publish \<Rightarrow>
                                     if config_publishAsync st
                                     then (Resolved (Arr eventStream),
                                           fx\<lparr>setImmediate_calls := setImmediate_calls fx @ [eventStream]\<rparr>)
                                     else (Rejected (TypeError ''this[_bus].publish is not a function''), fx)
                                 | Bus publish \<Rightarrow>
                                     if config_publishAsync st
                                     then (Resolved (Arr eventStream),
                                           fx\<lparr>setImmediate_calls := setImmediate_calls fx @ [eventStream]\<rparr>)
                                     else
                                       (case publishEvents publish eventStream fx of
                                          (Rejected e, fx) \<Rightarrow> (Rejected e, fx)
                                        | (Pending, fx) \<Rightarrow> (Pending, fx)
                                        | (Resolved u, fx) \<Rightarrow> (Resolved (Arr eventStream), fx))))))
           | _ \<Rightarrow> (Rejected (TypeError ''events argument must be an Array''), fx)))"

text \<open>
  The default validator in the words of the specification: the type is a non-empty
  string, the event carries an \<^verbatim>\<open>aggregateId\<close> or a \<^verbatim>\<open>sagaId\<close>, and a
  \<^verbatim>\<open>sagaVersion\<close> is defined when the \<^verbatim>\<open>sagaId\<close> is there. An identifier is there
  when it is truthy.
\<close>

definition default_valid :: "jsval \<Rightarrow> bool" where
  "default_valid event \<longleftrightarrow>
     (\<exists>s. read_prop event ''type'' = Str s \<and> s \<noteq> []) \<and>
     (truthy (read_prop event ''aggregateId'') \<or> truthy (read_prop event ''sagaId'')) \<and>
     (truthy (read_prop event ''sagaId'') \<longrightarrow> read_prop event ''sagaVersion'' \<noteq> Undefined)"


section \<open>Subscriptions\<close>

text \<open>\<^verbatim>\<open>`${v}`\<close>: the string of a value in a template literal.\<close>

fun join_with :: "string \<Rightarrow> string list \<Rightarrow> string" where
  "join_with sep [] = []"
| "join_with sep [x] = x"
| "join_with sep (x # y # ys) = x @ sep @ join_with sep (y # ys)"

fun ToString :: "jsval \<Rightarrow> string" where
  "ToString Undefined = ''undefined''"
| "ToString Null = ''null''"
| "ToString (Bool b) = (if b then ''true'' else ''false'')"
| "ToString (Num n) = (if n < 0 then ''-'' @ digits_of (nat (- n)) else digits_of (nat n))"
| "ToString (Str s) = s"
| "ToString (Arr xs) =
     join_with '','' (map (\<lambda>x. if x = Undefined \<or> x = Null then [] else ToString x) xs)"
| "ToString (ObjP kvs p) = ''[object Object]''"

text \<open>
  An argument in the place of a callback: a function, known by a name of type \<open>'f\<close>, or
  a value that is not a function.
\<close>

datatype 'f arg = Fn 'f | Val jsval

fun arg_truthy :: "'f arg \<Rightarrow> bool" where
  "arg_truthy (Fn f) = True"
| "arg_truthy (Val v) = truthy v"

fun arg_function :: "'f arg \<Rightarrow> 'f option" where
  "arg_function (Fn f) = Some f"
| "arg_function (Val v) = None"

text \<open>
  What the store registers at its emitter: a handler as it was given, with the options
  passed along; the arrow function that \<^verbatim>\<open>on\<close> wraps around a handler of a named queue;
  the \<^verbatim>\<open>filteredHandler\<close> closure of the \<open>n\<close>-th call of \<^verbatim>\<open>once\<close>.
\<close>

datatype 'h listener =
    Handler 'h jsval
  | QueueHandler 'h
  | FilteredHandler nat

text \<open>
  The variables a \<^verbatim>\<open>filteredHandler\<close> closes over: the message types, the handler and
  the filter when they are functions, the latch \<^verbatim>\<open>handled\<close>, and the calls made of the
  promise's \<^verbatim>\<open>resolve\<close>. A filter returns a value or throws.
\<close>

record 'h once_subscription =
  once_messageTypes :: "string list"
  once_handler :: "'h option"
  once_filter :: "(jsval \<Rightarrow> js_error + jsval) option"
  handled :: bool
  resolve_calls :: "jsval list"

text \<open>
  The state behind \<^verbatim>\<open>on\<close> and \<^verbatim>\<open>once\<close>: the map \<^verbatim>\<open>this[_namedQueues]\<close>, the
  registrations held by the emitter in the order they were made, the closures made by
  \<^verbatim>\<open>once\<close>, and every invocation of a handler so far.
\<close>

record 'h subscriptions =
  namedQueues :: "(string \<times> 'h) list"
  listeners :: "(string \<times> 'h listener) list"
  once_subscriptions :: "'h once_subscription list"
  handler_calls :: "('h \<times> jsval) list"

text \<open>
  Modelled from the spec: the emitter behind the store (the message bus, the storage, or
  the \<^verbatim>\<open>InMemoryMessageBus\<close> of \<^verbatim>\<open>./infrastructure\<close>), none of them under the
  sources. Its \<^verbatim>\<open>on(messageType, handler, options?)\<close> subscribes the handler to the
  type; its \<^verbatim>\<open>removeListener\<close> (or \<^verbatim>\<open>off\<close>) takes one subscription of the handler
  to the type away.
\<close>

definition emitter_on :: "string \<Rightarrow> 'h listener \<Rightarrow> (string \<times> 'h listener) list \<Rightarrow> (string \<times> 'h listener) list" where
  "emitter_on messageType l ls = ls @ [(messageType, l)]"

definition emitter_removeListener :: "string \<Rightarrow> 'h listener \<Rightarrow> (string \<times> 'h listener) list \<Rightarrow> (string \<times> 'h listener) list" where
  "emitter_removeListener messageType l ls = remove1 (messageType, l) ls"

text \<open>The parameter \<^verbatim>\<open>{ queueName } = {}\<close> of \<^verbatim>\<open>on\<close>.\<close>

definition queueName_of :: "jsval \<Rightarrow> js_error + jsval" where
  "queueName_of options =
     (if options = Undefined then Inr Undefined else get_prop options ''queueName'')"

text \<open>\<^verbatim>\<open>EventStore.on(messageType, handler, { queueName } = {})\<close>\<close>

definition on :: "store \<Rightarrow> jsval \<Rightarrow> 'h arg \<Rightarrow> jsval \<Rightarrow> 'h subscriptions \<Rightarrow> js_error + 'h subscriptions" where
  "on st messageType handler options s =
     (case queueName_of options of
        Inl e \<Rightarrow> Inl e
      | Inr queueName \<Rightarrow>
          if typeof messageType \<noteq> ''string'' \<or> \<not> truthy (read_prop messageType ''length'')
          then Inl (TypeError ''messageType argument must be a non-empty String'')
          else
            (case arg_function handler of
               None \<Rightarrow> Inl (TypeError ''handler argument must be a Function'')
             | Some h \<Rightarrow>
                 if truthy queueName \<and> \<not> emitter_supportsQueues st
                 then
                   if \<not> truthy (hostname_val (config_hostname st))
                   then Inl (Error ([CHR 0x27] @ ToString messageType @ [CHR 0x27] @
                          '' handler could not be set up, unique config.hostname is required for named queue subscriptions''))
                   else
                     let handlerKey = ToString queueName @ '':'' @ ToString messageType in
                     if map_of (namedQueues s) handlerKey \<noteq> None
                     then Inl (Error ([CHR 0x27] @ handlerKey @ [CHR 0x27] @
                            '' handler already set up on this node''))
                     else Inr (s\<lparr>namedQueues := AList.update handlerKey h (namedQueues s),
                                 listeners := emitter_on (ToString messageType) (QueueHandler h) (listeners s)\<rparr>)
                 else Inr (s\<lparr>listeners :=
                             emitter_on (ToString messageType) (Handler h (Obj [(''queueName'', queueName)])) (listeners s)\<rparr>)))"



text \<open>
  \<^verbatim>\<open>EventStore.once(messageTypes, handler, filter)\<close>: the number of the closure made
  (it stands for the promise returned) and the state with the closure subscribed to every
  type.
\<close>

definition once :: "jsval \<Rightarrow> 'h arg \<Rightarrow> (jsval \<Rightarrow> js_error + jsval) arg \<Rightarrow> 'h subscriptions \<Rightarrow> js_error + nat \<times> 'h subscriptions" where
  "once messageTypes handler filter_arg s =
     (let messageTypes = (case messageTypes of Arr ts \<Rightarrow> ts | _ \<Rightarrow> [messageTypes]) in
      if filter (\<lambda>t. \<not> truthy t \<or> typeof t \<noteq> ''string'') messageTypes \<noteq> []
      then Inl (TypeError ''messageType argument must be either a non-empty String or an Array of non-empty Strings'')
      else if arg_truthy handler \<and> arg_function handler = None
      then Inl (TypeError ''handler argument, when specified, must be a Function'')
      else if arg_truthy filter_arg \<and> arg_function filter_arg = None
      then Inl (TypeError ''filter argument, when specified, must be a Function'')
      else
        let n = length (once_subscriptions s);
            closure = \<lparr>once_messageTypes = map ToString messageTypes,
                       once_handler = arg_function handler,
                       once_filter = arg_function filter_arg,
                       handled = False,
                       resolve_calls = []\<rparr>
        in Inr (n, s\<lparr>once_subscriptions := once_subscriptions s @ [closure],
                      listeners := fold (\<lambda>messageType. emitter_on messageType (FilteredHandler n))
                                     (map ToString messageTypes) (listeners s)\<rparr>))"

text \<open>
  \<^verbatim>\<open>filteredHandler(event)\<close> of the \<open>n\<close>-th closure, \<open>n\<close> being a number that
  \<^verbatim>\<open>once\<close> has returned. \<open>can_remove\<close> says that the emitter has a
  \<^verbatim>\<open>removeListener\<close> or an \<^verbatim>\<open>off\<close> method; calling neither throws. \<open>run\<close> is
  what the handlers do when called: return, or throw. The outcome is the error thrown,
  if any, and the state after the call. Between the unsubscription and the handler comes
  the log line, whose template reads \<^verbatim>\<open>event.type\<close>, which throws for an event
  that is undefined or null, and converts that value to a string: \<open>to_string\<close> is what
  this conversion does, the string or the error it throws (as it does for an object
  without a callable \<^verbatim>\<open>toString\<close> or \<^verbatim>\<open>valueOf\<close>, such as one whose prototype
  is null). The message types joined in the same line are strings.
  \<^verbatim>\<open>resolve(event)\<close> comes after \<^verbatim>\<open>handler(event)\<close>, so it is not reached when
  the handler throws.
\<close>

definition filteredHandler :: "bool \<Rightarrow> (jsval \<Rightarrow> js_error + string) \<Rightarrow> ('h \<Rightarrow> jsval \<Rightarrow> js_error option) \<Rightarrow> nat \<Rightarrow> jsval \<Rightarrow> 'h subscriptions \<Rightarrow> js_error option \<times> 'h subscriptions" where
  "filteredHandler can_remove to_string run n event s =
     (let c = once_subscriptions s ! n in
      case (case once_filter c of None \<Rightarrow> Inr True | Some f \<Rightarrow> map_sum id truthy (f event)) of
        Inl e \<Rightarrow> (Some e, s)
      | Inr passes \<Rightarrow>
          if \<not> passes then (None, s)
          else if handled c then (None, s)
          else
            let s = s\<lparr>once_subscriptions := (once_subscriptions s)[n := c\<lparr>handled := True\<rparr>]\<rparr> in
            if once_messageTypes c \<noteq> [] \<and> \<not> can_remove
            then (Some (TypeError ''emitter.off is not a function''), s)
            else
              let s = s\<lparr>listeners := fold (\<lambda>messageType. emitter_removeListener messageType (FilteredHandler n))
                                         (once_messageTypes c) (listeners s)\<rparr>;
                  resolve = (\<lambda>s. s\<lparr>once_subscriptions :=
                               (once_subscriptions s)[n := (once_subscriptions s ! n)
                                  \<lparr>resolve_calls := resolve_calls (once_subscriptions s ! n) @ [event]\<rparr>]\<rparr>)
              in
              (case get_prop event ''type'' of
                 Inl e \<Rightarrow> (Some e, s)
               | Inr event_type \<Rightarrow>
                   (case to_string event_type of
                      Inl e \<Rightarrow> (Some e, s)
                    | Inr shown \<Rightarrow>
                        (case once_handler c of
                           None \<Rightarrow> (None, resolve s)
                         | Some h \<Rightarrow>
                             let s = s\<lparr>handler_calls := handler_calls s @ [(h, event)]\<rparr> in
                             (case run h event of
                                Some e \<Rightarrow> (Some e, s)
                              | None \<Rightarrow> (None, resolve s))))))"

text \<open>
  The events an emitter delivers to the closure, one after the other; an error thrown by
  the closure goes to the emitter.
\<close>

definition once_deliveries :: "bool \<Rightarrow> (jsval \<Rightarrow> js_error + string) \<Rightarrow> ('h \<Rightarrow> jsval \<Rightarrow> js_error option) \<Rightarrow> nat \<Rightarrow> jsval list \<Rightarrow> 'h subscriptions \<Rightarrow> 'h subscriptions" where
  "once_deliveries can_remove to_string run n events s =
     fold (\<lambda>event s. snd (filteredHandler can_remove to_string run n event s)) events s"

text \<open>
  The log line of the closure is reached with an event when \<^verbatim>\<open>event.type\<close> can be
  read and converted to a string.
\<close>

definition logs :: "(jsval \<Rightarrow> js_error + string) \<Rightarrow> jsval \<Rightarrow> bool" where
  "logs to_string event =
     (case get_prop event ''type'' of
        Inl e \<Rightarrow> False
      | Inr event_type \<Rightarrow> (case to_string event_type of Inl e \<Rightarrow> False | Inr shown \<Rightarrow> True))"

text \<open>An event qualifies for a closure when its filter, if any, returns a truthy value.\<close>

definition qualifies :: "(jsval \<Rightarrow> js_error + jsval) option \<Rightarrow> jsval \<Rightarrow> bool" where
  "qualifies f event =
     (case f of None \<Rightarrow> True
      | Some f \<Rightarrow> (case f event of Inl e \<Rightarrow> False | Inr v \<Rightarrow> truthy v))"


text \<open>The message types of a call of \<^verbatim>\<open>once\<close>, a single type standing for itself.\<close>

definition messageTypes_of :: "jsval \<Rightarrow> string list" where
  "messageTypes_of messageTypes = map ToString (case messageTypes of Arr ts \<Rightarrow> ts | _ \<Rightarrow> [messageTypes])"

section \<open>JSON\<close>

text \<open>
  \<^verbatim>\<open>JSON.stringify\<close> and \<^verbatim>\<open>JSON.parse\<close> on the values of this model: the texts
  written have integer literals and the escapes of \<^verbatim>\<open>JSON.stringify\<close>, and those
  texts are read back. \<^verbatim>\<open>JSON.stringify\<close> gives undefined (\<open>None\<close>) for undefined.
\<close>

definition hex_digit :: "nat \<Rightarrow> char" where
  "hex_digit n = (if n < 10 then char_of (48 + n) else char_of (87 + n))"

fun escape_char :: "char \<Rightarrow> string" where
  "escape_char c =
     (if c = CHR 0x22 then [CHR 0x5C, CHR 0x22]
      else if c = CHR 0x5C then [CHR 0x5C, CHR 0x5C]
      else if c = CHR 0x08 then [CHR 0x5C, CHR ''b'']
      else if c = CHR 0x0C then [CHR 0x5C, CHR ''f'']
      else if c = CHR 0x0A then [CHR 0x5C, CHR ''n'']
      else if c = CHR 0x0D then [CHR 0x5C, CHR ''r'']
      else if c = CHR 0x09 then [CHR 0x5C, CHR ''t'']
      else if (of_char c :: nat) < 32
      then [CHR 0x5C, CHR ''u'', CHR ''0'', CHR ''0'', hex_digit (of_char c div 16), hex_digit (of_char c mod 16)]
      else [c])"

definition quote :: "string \<Rightarrow> string" where
  "quote s = [CHR 0x22] @ concat (map escape_char s) @ [CHR 0x22]"

fun JSON_stringify :: "jsval \<Rightarrow> string option" where
  "JSON_stringify Undefined = None"
| "JSON_stringify Null = Some ''null''"
| "JSON_stringify (Bool b) = Some (if b then ''true'' else ''false'')"
| "JSON_stringify (Num n) = Some (ToString (Num n))"
| "JSON_stringify (Str s) = Some (quote s)"
| "JSON_stringify (Arr xs) =
     Some (''['' @ join_with '','' (map (\<lambda>x. case JSON_stringify x of None \<Rightarrow> ''null'' | Some t \<Rightarrow> t) xs) @ '']'')"
| "JSON_stringify (ObjP kvs p) =
     Some (''{'' @ join_with '',''
             (concat (map (\<lambda>(k, v). case JSON_stringify v of None \<Rightarrow> [] | Some t \<Rightarrow> [quote k @ '':'' @ t])
                        (filter (\<lambda>(k, v). map_of kvs k = Some v) kvs)))
           @ ''}'')"


definition skip_ws :: "string \<Rightarrow> string" where
  "skip_ws cs = dropWhile (\<lambda>c. c = CHR 0x20 \<or> c = CHR 0x09 \<or> c = CHR 0x0A \<or> c = CHR 0x0D) cs"

definition starts_with :: "string \<Rightarrow> string \<Rightarrow> bool" where
  "starts_with word cs = (take (length word) cs = word)"

definition hex_value :: "char \<Rightarrow> nat option" where
  "hex_value c =
     (let n = (of_char c :: nat) in
      if 48 \<le> n \<and> n \<le> 57 then Some (n - 48)
      else if 97 \<le> n \<and> n \<le> 102 then Some (n - 87)
      else if 65 \<le> n \<and> n \<le> 70 then Some (n - 55)
      else None)"

text \<open>The character a two-character escape sequence stands for.\<close>

definition simple_escape :: "char \<Rightarrow> char option" where
  "simple_escape c =
     (if c = CHR 0x22 \<or> c = CHR 0x5C \<or> c = CHR ''/'' then Some c
      else if c = CHR ''b'' then Some (CHR 0x08)
      else if c = CHR ''f'' then Some (CHR 0x0C)
      else if c = CHR ''n'' then Some (CHR 0x0A)
      else if c = CHR ''r'' then Some (CHR 0x0D)
      else if c = CHR ''t'' then Some (CHR 0x09)
      else None)"

text \<open>
  The characters of a string literal after its opening quote, and the text after its
  closing quote. Characters are bytes here, so of the four-digit escapes those of a
  code below 256 are read.
\<close>

fun scan_string :: "string \<Rightarrow> string \<Rightarrow> (string \<times> string) option" where
  "scan_string acc [] = None"
| "scan_string acc (c # cs) =
     (if c = CHR 0x22 then Some (acc, cs)
      else if c = CHR 0x5C then
        (case cs of
           [] \<Rightarrow> None
         | d # ds \<Rightarrow>
             if d = CHR ''u'' then
               (case ds of
                  h1 # h2 # h3 # h4 # rest \<Rightarrow>
                    (case (hex_value h1, hex_value h2, hex_value h3, hex_value h4) of
                       (Some a, Some b, Some h, Some l) \<Rightarrow>
                         if a = 0 \<and> b = 0 then scan_string (acc @ [char_of (16 * h + l)]) rest
                         else None
                     | _ \<Rightarrow> None)
                | _ \<Rightarrow> None)
             else
               (case simple_escape d of
                  None \<Rightarrow> None
                | Some ch \<Rightarrow> scan_string (acc @ [ch]) ds))
      else if (of_char c :: nat) < 32 then None
      else scan_string (acc @ [c]) cs)"

definition is_digit :: "char \<Rightarrow> bool" where
  "is_digit c = (48 \<le> (of_char c :: nat) \<and> (of_char c :: nat) \<le> 57)"

text \<open>
  An integer literal, and the text after it. The numbers of this model are integers, for
  which \<^verbatim>\<open>JSON.stringify\<close> writes no fraction and no exponent; a literal with one is
  not read.
\<close>

definition scan_number :: "string \<Rightarrow> (jsval \<times> string) option" where
  "scan_number cs =
     (let negative = starts_with ''-'' cs;
          cs = (if negative then tl cs else cs);
          ds = takeWhile is_digit cs;
          rest = dropWhile is_digit cs;
          n = foldl (\<lambda>a d. 10 * a + (int (of_char d) - 48)) 0 ds
      in if ds = [] \<or> (length ds > 1 \<and> hd ds = CHR ''0'') then None
         else if starts_with ''.'' rest \<or> starts_with ''e'' rest \<or> starts_with ''E'' rest then None
         else Some (Num (if negative then - n else n), rest))"

text \<open>
  The recursive descent: a value, the elements of an array after the first bracket, the
  members of an object after the first brace. The result is the value read and the text
  after it, or \<open>None\<close> for a text that is no JSON.
\<close>

datatype json_goal = Value | Elements "jsval list" | Members "(string \<times> jsval) list"

partial_function (option) parse_json :: "json_goal \<Rightarrow> string \<Rightarrow> (jsval \<times> string) option option" where
  "parse_json goal cs =
     (case goal of
        Value \<Rightarrow>
          (let cs = skip_ws cs in
           if starts_with ''null'' cs then Some (Some (Null, drop 4 cs))
           else if starts_with ''true'' cs then Some (Some (Bool True, drop 4 cs))
           else if starts_with ''false'' cs then Some (Some (Bool False, drop 5 cs))
           else if starts_with [CHR 0x22] cs
           then Some (map_option (\<lambda>(s, rest). (Str s, rest)) (scan_string [] (tl cs)))
           else if starts_with ''['' cs
           then (if starts_with '']'' (skip_ws (tl cs)) then Some (Some (Arr [], tl (skip_ws (tl cs))))
                 else parse_json (Elements []) (tl cs))
           else if starts_with ''{'' cs
           then (if starts_with ''}'' (skip_ws (tl cs)) then Some (Some (Obj [], tl (skip_ws (tl cs))))
                 else parse_json (Members []) (tl cs))
           else Some (scan_number cs))
      | Elements acc \<Rightarrow>
          Option.bind (parse_json Value cs) (\<lambda>res.
            case res of
              None \<Rightarrow> Some None
            | Some (v, rest) \<Rightarrow>
                (let rest = skip_ws rest in
                 if starts_with '','' rest then parse_json (Elements (acc @ [v])) (tl rest)
                 else if starts_with '']'' rest then Some (Some (Arr (acc @ [v]), tl rest))
                 else Some None))
      | Members acc \<Rightarrow>
          (let cs = skip_ws cs in
           if \<not> starts_with [CHR 0x22] cs then Some None
           else
             (case scan_string [] (tl cs) of
                None \<Rightarrow> Some None
              | Some (k, rest) \<Rightarrow>
                  (let rest = skip_ws rest in
                   if \<not> starts_with '':'' rest then Some None
                   else
                     Option.bind (parse_json Value (tl rest)) (\<lambda>res.
                       case res of
                         None \<Rightarrow> Some None
                       | Some (v, rest) \<Rightarrow>
                           (let rest = skip_ws rest in
                            if starts_with '','' rest
                            then parse_json (Members (AList.update k v acc)) (tl rest)
                            else if starts_with ''}'' rest
                            then Some (Some (Obj (AList.update k v acc), tl rest))
                            else Some None))))))"

declare parse_json.simps [code]

text \<open>
  \<^verbatim>\<open>JSON.parse(text)\<close>: the argument is converted to a string, and a text that is
  no JSON throws a \<^verbatim>\<open>SyntaxError\<close>.
\<close>

definition JSON_parse :: "jsval \<Rightarrow> (js_error + jsval) option" where
  "JSON_parse text =
     (case parse_json Value (ToString text) of
        None \<Rightarrow> None
      | Some None \<Rightarrow> Some (Inl (SyntaxError ''Unexpected token in JSON''))
      | Some (Some (v, rest)) \<Rightarrow>
          if skip_ws rest = [] then Some (Inr v)
          else Some (Inl (SyntaxError ''Unexpected token in JSON'')))"

section \<open>The aggregate runtime\<close>

text \<open>
  An aggregate: \<^verbatim>\<open>this[_id]\<close>, \<^verbatim>\<open>this[_version]\<close>, \<^verbatim>\<open>this[_changes]\<close> and
  \<^verbatim>\<open>this[_state]\<close>. The state is an object of the caller with a \<^verbatim>\<open>mutate\<close> method,
  of a type \<open>'s\<close>, or undefined (\<open>None\<close>). The version is a number that starts at 0
  and only ever grows by 1, as often as there are events in arrays, so it stays an exact
  integer and is a natural number here.
\<close>

record 's aggregate =
  aggregate_id :: jsval
  version :: nat
  changes :: "jsval list"
  state :: "'s option"

text \<open>
  The \<^verbatim>\<open>options\<close> of the constructor; \<open>options_state\<close> is \<open>None\<close> when
  \<^verbatim>\<open>options.state\<close> is absent or falsy (\<^verbatim>\<open>options.state || undefined\<close>).
\<close>

record 's aggregate_options =
  options_id :: jsval
  options_state :: "'s option"
  options_events :: jsval

fun isArray :: "jsval \<Rightarrow> bool" where
  "isArray (Arr xs) = True"
| "isArray v = False"

fun elements :: "jsval \<Rightarrow> jsval list" where
  "elements (Arr xs) = xs"
| "elements v = []"

text \<open>
  \<^verbatim>\<open>mutate(event)\<close>. \<open>state_mutate\<close> is the \<^verbatim>\<open>mutate\<close> method of the state: it
  changes the state, or throws.
\<close>

definition mutate :: "('s \<Rightarrow> jsval \<Rightarrow> js_error + 's) \<Rightarrow> 's aggregate \<Rightarrow> jsval \<Rightarrow> js_error + 's aggregate" where
  "mutate state_mutate this event =
     (case state this of
        None \<Rightarrow> Inr (this\<lparr>version := version this + 1\<rparr>)
      | Some s \<Rightarrow>
          (case state_mutate s event of
             Inl e \<Rightarrow> Inl e
           | Inr s' \<Rightarrow> Inr (this\<lparr>state := Some s', version := version this + 1\<rparr>)))"

text \<open>\<^verbatim>\<open>events.forEach(e => this.mutate(e))\<close>\<close>

fun forEach_mutate :: "('s \<Rightarrow> jsval \<Rightarrow> js_error + 's) \<Rightarrow> jsval list \<Rightarrow> 's aggregate \<Rightarrow> js_error + 's aggregate" where
  "forEach_mutate state_mutate [] this = Inr this"
| "forEach_mutate state_mutate (e # es) this =
     (case mutate state_mutate this e of
        Inl err \<Rightarrow> Inl err
      | Inr this' \<Rightarrow> forEach_mutate state_mutate es this')"

text \<open>
  The constructor. \<open>validateHandlers\<close> is the outcome of
  \<^verbatim>\<open>validateHandlers(this)\<close>, of the module \<^verbatim>\<open>./utils/validateHandlers\<close>, which is
  not under the sources: it returns (\<open>None\<close>) or throws. \<open>options\<close> is \<open>None\<close> for a
  falsy argument.
\<close>

definition AbstractAggregate :: "('s \<Rightarrow> jsval \<Rightarrow> js_error + 's) \<Rightarrow> js_error option \<Rightarrow> 's aggregate_options option \<Rightarrow> js_error + 's aggregate" where
  "AbstractAggregate state_mutate validateHandlers options =
     (case options of
        None \<Rightarrow> Inl (TypeError ''options argument required'')
      | Some options \<Rightarrow>
          if \<not> truthy (options_id options) then Inl (TypeError ''options.id argument required'')
          else if truthy (options_events options) \<and> \<not> isArray (options_events options)
          then Inl (TypeError ''options.events argument, when provided, must be an Array'')
          else
            let this = \<lparr>aggregate_id = options_id options, version = 0, changes = [],
                        state = options_state options\<rparr>
            in (case validateHandlers of
                  Some e \<Rightarrow> Inl e
                | None \<Rightarrow>
                    if truthy (options_events options)
                    then forEach_mutate state_mutate (elements (options_events options)) this
                    else Inr this))"

text \<open>The event that \<^verbatim>\<open>emit(eventType, eventPayload)\<close> builds.\<close>

definition emitted_event :: "'s aggregate \<Rightarrow> jsval \<Rightarrow> jsval \<Rightarrow> jsval" where
  "emitted_event this eventType eventPayload =
     Obj [(''aggregateId'', aggregate_id this),
          (''version'', Num (int (version this))),
          (''type'', eventType),
          (''payload'', eventPayload)]"

text \<open>\<^verbatim>\<open>emit(eventType, eventPayload)\<close>\<close>

definition emit :: "('s \<Rightarrow> jsval \<Rightarrow> js_error + 's) \<Rightarrow> 's aggregate \<Rightarrow> jsval \<Rightarrow> jsval \<Rightarrow> js_error + 's aggregate" where
  "emit state_mutate this eventType eventPayload =
     (if typeof eventType \<noteq> ''string'' \<or> \<not> truthy (read_prop eventType ''length'')
      then Inl (TypeError ''eventType argument must be a non-empty string'')
      else
        let event = emitted_event this eventType eventPayload in
        (case mutate state_mutate this event of
           Inl e \<Rightarrow> Inl e
         | Inr this \<Rightarrow> Inr (this\<lparr>changes := changes this @ [event]\<rparr>)))"

text \<open>
  The getter \<^verbatim>\<open>snapshot\<close>: \<^verbatim>\<open>JSON.parse(JSON.stringify(this.state))\<close>. \<open>serial\<close>
  is the data of a state object as \<^verbatim>\<open>JSON.stringify\<close> reads it.
\<close>

definition snapshot :: "('s \<Rightarrow> jsval) \<Rightarrow> 's aggregate \<Rightarrow> (js_error + jsval) option" where
  "snapshot serial this =
     JSON_parse
       (case JSON_stringify (case state this of None \<Rightarrow> Undefined | Some s \<Rightarrow> serial s) of
          None \<Rightarrow> Undefined
        | Some text \<Rightarrow> Str text)"

section \<open>Example inputs\<close>

text \<open>
  A store on node \<^verbatim>\<open>node-1\<close> that publishes synchronously, with the default validator,
  a storage that accepts every stream and a bus on which the publication of a
  \<^verbatim>\<open>Renamed\<close> event fails; a source command with a saga and a context; events with
  and without a type; the event as the store augments it for that command.
\<close>

definition example_store :: store where
  "example_store =
     \<lparr>config_hostname = Some ''node-1'',
      config_publishAsync = False,
      validator = validateEvent,
      storage_commitEvents = (\<lambda>stream. Resolved ()),
      bus = Bus (\<lambda>event. if read_prop event ''type'' = Str ''Renamed''
                           then Rejects 0 (Failure (Str ''bus down'')) else Fulfils),
      emitter_supportsQueues = False\<rparr>"

definition no_effects :: effects where
  "no_effects = \<lparr>commitEvents_calls = [], publish_calls = [], setImmediate_calls = []\<rparr>"

definition example_options :: jsval where
  "example_options =
     Obj [(''sourceCommand'',
           Obj [(''sagaId'', Str ''s1''), (''sagaVersion'', Num 2),
                (''context'', Obj [(''user'', Str ''u1'')])])]"

definition example_command :: jsval where
  "example_command =
           Obj [(''sagaId'', Str ''s1''), (''sagaVersion'', Num 2),
                (''context'', Obj [(''user'', Str ''u1'')])]"

definition created :: jsval where
  "created = Obj [(''type'', Str ''Created''), (''aggregateId'', Str ''a1'')]"

definition renamed :: jsval where
  "renamed = Obj [(''type'', Str ''Renamed''), (''aggregateId'', Str ''a1'')]"

definition untyped :: jsval where
  "untyped = Obj [(''aggregateId'', Str ''a1'')]"

text \<open>
  An event as \<^verbatim>\<open>JSON.parse\<close> makes it of a text with a \<^verbatim>\<open>__proto__\<close> member: its
  type and its aggregate are properties of the value of its own \<^verbatim>\<open>__proto__\<close>
  property.
\<close>

definition inheriting :: jsval where
  "inheriting =
     Obj [(''__proto__'', Obj [(''type'', Str ''Created''), (''aggregateId'', Str ''a1'')])]"



definition augmented :: "jsval \<Rightarrow> jsval" where
  "augmented event =
     Object_assign []
       [Obj [(''sagaId'', Str ''s1''), (''sagaVersion'', Num 2),
             (''context'', Obj [(''hostname'', Str ''node-1''), (''user'', Str ''u1'')])],
        event]"

text \<open>
  Handlers are known by their names here. A handler that returns, a filter that reads the
  \<^verbatim>\<open>ok\<close> property of an event, an event committed on another node, and the states
  after a named-queue registration, after a call of \<^verbatim>\<open>once\<close> for the types
  \<^verbatim>\<open>A\<close> and \<^verbatim>\<open>B\<close>, and after a call of \<^verbatim>\<open>once\<close> for the type \<^verbatim>\<open>A\<close>
  without a filter.
\<close>

definition no_subscriptions :: "string subscriptions" where
  "no_subscriptions = \<lparr>namedQueues = [], listeners = [], once_subscriptions = [], handler_calls = []\<rparr>"

definition queue_options :: jsval where
  "queue_options = Obj [(''queueName'', Str ''q1'')]"

definition returns :: "string \<Rightarrow> jsval \<Rightarrow> js_error option" where
  "returns h event = None"

text \<open>
  A handler that throws, and the conversion of a value to a string in a template literal,
  which returns for the values used here (strings).
\<close>

definition throws :: "string \<Rightarrow> jsval \<Rightarrow> js_error option" where
  "throws h event = Some (Failure (Str ''handler failed''))"

definition to_text :: "jsval \<Rightarrow> js_error + string" where
  "to_text v = Inr (ToString v)"


definition ok_filter :: "jsval \<Rightarrow> js_error + jsval" where
  "ok_filter event = Inr (read_prop event ''ok'')"

definition ev_A_no :: jsval where
  "ev_A_no = Obj [(''type'', Str ''A''), (''ok'', Bool False)]"

definition ev_B_yes :: jsval where
  "ev_B_yes = Obj [(''type'', Str ''B''), (''ok'', Bool True)]"

definition ev_A_yes :: jsval where
  "ev_A_yes = Obj [(''type'', Str ''A''), (''ok'', Bool True)]"

definition registered :: "string subscriptions" where
  "registered = \<lparr>namedQueues = [(''q1:Created'', ''h1'')],
                 listeners = [(''Created'', QueueHandler ''h1'')],
                 once_subscriptions = [], handler_calls = []\<rparr>"

definition waiting :: "string subscriptions" where
  "waiting = \<lparr>namedQueues = [],
               listeners = [(''A'', FilteredHandler 0), (''B'', FilteredHandler 0)],
               once_subscriptions =
                 [\<lparr>once_messageTypes = [''A'', ''B''], once_handler = Some ''h1'',
                   once_filter = Some ok_filter, handled = False, resolve_calls = []\<rparr>],
               handler_calls = []\<rparr>"

definition listening :: "string subscriptions" where
  "listening = \<lparr>namedQueues = [],
               listeners = [(''A'', FilteredHandler 0)],
               once_subscriptions =
                 [\<lparr>once_messageTypes = [''A''], once_handler = Some ''h1'',
                   once_filter = None, handled = False, resolve_calls = []\<rparr>],
               handler_calls = []\<rparr>"

text \<open>
  A state that counts the events it is mutated with, a history of three events, and the
  aggregates after the replay, after an \<^verbatim>\<open>emit\<close>, and constructed without a state.
\<close>

definition counting :: "nat \<Rightarrow> jsval \<Rightarrow> js_error + nat" where
  "counting s event = Inr (Suc s)"

definition history :: "nat aggregate_options" where
  "history = \<lparr>options_id = Str ''a1'', options_state = Some 0,
              options_events = Arr [created, renamed, created]\<rparr>"

definition replayed :: "nat aggregate" where
  "replayed = \<lparr>aggregate_id = Str ''a1'', version = 3, changes = [], state = Some 3\<rparr>"

definition stateless :: "nat aggregate_options" where
  "stateless = \<lparr>options_id = Str ''a1'', options_state = None,
                options_events = Arr [created]\<rparr>"

definition emitted :: "nat aggregate" where
  "emitted = \<lparr>aggregate_id = Str ''a1'', version = 4,
               changes = [Obj [(''aggregateId'', Str ''a1''), (''version'', Num 3),
                               (''type'', Str ''Renamed''), (''payload'', Str ''new name'')]],
               state = Some 4\<rparr>"

definition without_state :: "nat aggregate" where
  "without_state = \<lparr>aggregate_id = Str ''a1'', version = 1, changes = [], state = None\<rparr>"

section \<open>Properties of the JavaScript values\<close>

lemma digits_of_ne: "digits_of n \<noteq> []"
  by (subst digits_of.simps) simp

lemma digits_of_len1: "length (digits_of n) = Suc 0 \<longleftrightarrow> n < 10"
proof (cases "n < 10")
  case True
  then show ?thesis by (simp add: digits_of.simps[of n])
next
  case False
  have "digits_of (n div 10) \<noteq> []" by (rule digits_of_ne)
  then have "length (digits_of (n div 10)) \<noteq> 0" by simp
  with False show ?thesis by (simp add: digits_of.simps[of n])
qed

lemma digits_of_inj: "digits_of n = digits_of m \<Longrightarrow> n = m"
proof (induction n arbitrary: m rule: digits_of.induct)
  case (1 n)
  show ?case
  proof (cases "n < 10")
    case True
    then have "length (digits_of m) = Suc 0" using "1.prems" digits_of_len1[of n] by simp
    then have m: "m < 10" by (simp add: digits_of_len1)
    from True m "1.prems" have "char_of (48 + n) = (char_of (48 + m) :: char)"
      by (simp add: digits_of.simps[of n] digits_of.simps[of m])
    then have "(of_char (char_of (48 + n) :: char) :: nat) = of_char (char_of (48 + m) :: char)"
      by simp
    then have "(48 + n) mod 256 = (48 + m) mod 256"
      by (simp only: of_char_of)
    moreover have "(48 + n) mod 256 = 48 + n" using True by (intro mod_less) linarith
    moreover have "(48 + m) mod 256 = 48 + m" using m by (intro mod_less) linarith
    ultimately show ?thesis by linarith
  next
    case False
    then have "length (digits_of m) \<noteq> Suc 0" using "1.prems" digits_of_len1[of n] by simp
    then have m: "\<not> m < 10" by (simp add: digits_of_len1)
    from False m "1.prems" have eq: "digits_of (n div 10) = digits_of (m div 10)"
      and c: "char_of (48 + n mod 10) = (char_of (48 + m mod 10) :: char)"
      by (simp_all add: digits_of.simps[of n] digits_of.simps[of m])
    from "1.IH"[OF False eq] have d: "n div 10 = m div 10" .
    from c have "(of_char (char_of (48 + n mod 10) :: char) :: nat) = of_char (char_of (48 + m mod 10) :: char)"
      by simp
    then have "(48 + n mod 10) mod 256 = (48 + m mod 10) mod 256"
      by (simp only: of_char_of)
    moreover have "(48 + n mod 10) mod 256 = 48 + n mod 10"
      by (intro mod_less) (use mod_less_divisor[of 10 n] in linarith)
    moreover have "(48 + m mod 10) mod 256 = 48 + m mod 10"
      by (intro mod_less) (use mod_less_divisor[of 10 m] in linarith)
    ultimately have "n mod 10 = m mod 10" by linarith
    with d show ?thesis by (metis div_mult_mod_eq)
  qed
qed

lemma distinct_index_keys: "distinct (map index_key [0..<n])"
  by (simp add: distinct_map inj_on_def index_key_def) (blast dest: digits_of_inj)

lemma distinct_own_props: "distinct (map fst (own_props v))"
  by (cases v) (simp_all add: distinct_clearjunk distinct_index_keys)

lemma assign_props_other:
  assumes "k \<noteq> ''__proto__''" and "distinct (map fst ps)"
  shows "map_of (fst (assign_props t ps)) k =
           (case map_of ps k of Some v \<Rightarrow> Some v | None \<Rightarrow> map_of (fst t) k)"
  using assms(2) unfolding assign_props_def
proof (induction ps arbitrary: t)
  case Nil
  then show ?case by simp
next
  case (Cons p ps)
  obtain k0 v0 where p: "p = (k0, v0)" by (cases p)
  obtain props proto where t: "t = (props, proto)" by (cases t)
  from Cons.prems p have n: "map_of ps k0 = None"
    by (simp add: map_of_eq_None_iff)
  have "map_of (fst (assign_prop k0 v0 t)) k = (if k = k0 then Some v0 else map_of (fst t) k)"
    using assms(1) by (auto simp: assign_prop_def update_conv' split: prod.splits)
  with Cons p n show ?case
    by (auto split: option.splits)
qed

lemma assign_props_no_proto_key:
  assumes "map_of ps ''__proto__'' = None"
  shows "snd (assign_props t ps) = snd t"
    and "map_of (fst (assign_props t ps)) ''__proto__'' = map_of (fst t) ''__proto__''"
  using assms unfolding assign_props_def
proof (induction ps arbitrary: t)
  case Nil
  {
    case 1 show ?case by simp
  next
    case 2 show ?case by simp
  }
next
  case (Cons p ps)
  obtain k0 v0 where p: "p = (k0, v0)" by (cases p)
  obtain props proto where t: "t = (props, proto)" by (cases t)
  {
    case 1
    then have k0: "k0 \<noteq> ''__proto__''" and ps: "map_of ps ''__proto__'' = None"
      by (auto simp: p split: if_splits)
    from k0 have "snd (assign_prop k0 v0 t) = snd t"
      by (simp add: assign_prop_def split: prod.splits)
    with Cons.IH(1)[OF ps] show ?case by (simp add: p)
  next
    case 2
    then have k0: "k0 \<noteq> ''__proto__''" and ps: "map_of ps ''__proto__'' = None"
      by (auto simp: p split: if_splits)
    from k0 have "map_of (fst (assign_prop k0 v0 t)) ''__proto__'' = map_of (fst t) ''__proto__''"
      by (simp add: assign_prop_def update_conv' split: prod.splits)
    with Cons.IH(2)[OF ps] show ?case by (simp add: p)
  }
qed

lemma assign_props_fresh:
  assumes "distinct (map fst ps)" and "map_of props ''__proto__'' = None"
  shows "snd (assign_props (props, None) ps) =
           (case map_of ps ''__proto__'' of
              None \<Rightarrow> None
            | Some v \<Rightarrow> if is_object v \<or> v = Null then Some v else None)"
    and "map_of (fst (assign_props (props, None) ps)) ''__proto__'' = None"
  using assms
proof (induction ps arbitrary: props)
  case Nil
  {
    case 1 show ?case by (simp add: assign_props_def)
  next
    case 2 then show ?case by (simp add: assign_props_def)
  }
next
  case (Cons p ps)
  obtain k0 v0 where p: "p = (k0, v0)" by (cases p)
  have step: "assign_props (props, None) ((k0, v0) # ps) = assign_props (assign_prop k0 v0 (props, None)) ps"
    for props
    by (simp add: assign_props_def)
  {
    case 1
    from 1(1) have d: "distinct (map fst ps)" and n: "map_of ps k0 = None"
      by (simp_all add: p map_of_eq_None_iff)
    show ?case
    proof (cases "k0 = ''__proto__''")
      case True
      with n have m: "map_of ps ''__proto__'' = None" by simp
      have "snd (assign_prop k0 v0 (props, None)) = (if is_object v0 \<or> v0 = Null then Some v0 else None)"
        using True 1(2) by (simp add: assign_prop_def)
      with assign_props_no_proto_key(1)[OF m, of "assign_prop k0 v0 (props, None)"] show ?thesis
        unfolding p step by (simp add: True)
    next
      case False
      then have a: "assign_prop k0 v0 (props, None) = (AList.update k0 v0 props, None)"
        by (simp add: assign_prop_def)
      from False 1(2) have "map_of (AList.update k0 v0 props) ''__proto__'' = None"
        by (simp add: update_conv')
      from Cons.IH(1)[OF d this] False show ?thesis
        unfolding p step a by simp
    qed
  next
    case 2
    from 2(1) have d: "distinct (map fst ps)" and n: "map_of ps k0 = None"
      by (simp_all add: p map_of_eq_None_iff)
    show ?case
    proof (cases "k0 = ''__proto__''")
      case True
      with n have m: "map_of ps ''__proto__'' = None" by simp
      have "fst (assign_prop k0 v0 (props, None)) = props"
        using True 2(2) by (simp add: assign_prop_def)
      with assign_props_no_proto_key(2)[OF m, of "assign_prop k0 v0 (props, None)"] 2(2) show ?thesis
        unfolding p step by simp
    next
      case False
      then have a: "assign_prop k0 v0 (props, None) = (AList.update k0 v0 props, None)"
        by (simp add: assign_prop_def)
      from False 2(2) have "map_of (AList.update k0 v0 props) ''__proto__'' = None"
        by (simp add: update_conv')
      from Cons.IH(2)[OF d this] show ?thesis
        unfolding p step a by simp
    qed
  }
qed

lemma Object_assign1:
  assumes "map_of t ''__proto__'' = None"
  shows "\<exists>props. Object_assign t [a] = ObjP props (assigned_prototype a)
           \<and> map_of props ''__proto__'' = None
           \<and> (\<forall>k. k \<noteq> ''__proto__'' \<longrightarrow>
                 map_of props k =
                   (case map_of (own_props a) k of Some v \<Rightarrow> Some v | None \<Rightarrow> map_of t k))"
proof -
  let ?r = "assign_props (t, None) (own_props a)"
  have 1: "snd ?r = assigned_prototype a"
    using assign_props_fresh(1)[OF distinct_own_props assms, of a]
    by (simp add: assigned_prototype_def)
  have 2: "map_of (fst ?r) ''__proto__'' = None"
    by (rule assign_props_fresh(2)[OF distinct_own_props assms])
  have 3: "map_of (fst ?r) k =
             (case map_of (own_props a) k of Some v \<Rightarrow> Some v | None \<Rightarrow> map_of t k)"
    if "k \<noteq> ''__proto__''" for k
    using assign_props_other[OF that distinct_own_props, of "(t, None)" a]
    by (simp split: option.splits)
  have "Object_assign t [a] = ObjP (fst ?r) (snd ?r)"
    by (simp add: Object_assign_def split: prod.splits)
  with 1 2 3 show ?thesis by auto
qed

lemma Object_assign2:
  assumes "map_of t ''__proto__'' = None" and "map_of (own_props a) ''__proto__'' = None"
  shows "\<exists>props. Object_assign t [a, b] = ObjP props (assigned_prototype b)
           \<and> map_of props ''__proto__'' = None
           \<and> (\<forall>k. k \<noteq> ''__proto__'' \<longrightarrow>
                 map_of props k =
                   (case map_of (own_props b) k of
                      Some v \<Rightarrow> Some v
                    | None \<Rightarrow> (case map_of (own_props a) k of Some v \<Rightarrow> Some v | None \<Rightarrow> map_of t k)))"
proof -
  let ?m = "assign_props (t, None) (own_props a)"
  have m1: "snd ?m = None"
    using assign_props_no_proto_key(1)[OF assms(2), of "(t, None)"] by simp
  have m2: "map_of (fst ?m) ''__proto__'' = None"
    using assign_props_no_proto_key(2)[OF assms(2), of "(t, None)"] assms(1) by simp
  have m3: "map_of (fst ?m) k =
             (case map_of (own_props a) k of Some v \<Rightarrow> Some v | None \<Rightarrow> map_of t k)"
    if "k \<noteq> ''__proto__''" for k
    using assign_props_other[OF that distinct_own_props, of "(t, None)" a]
    by (simp split: option.splits)
  from m1 have m: "?m = (fst ?m, None)" by (simp add: prod_eq_iff)
  have eq: "Object_assign t [a, b] = Object_assign (fst ?m) [b]"
    by (simp add: Object_assign_def m[symmetric])
  from Object_assign1[OF m2, of b] obtain props
    where 1: "Object_assign (fst ?m) [b] = ObjP props (assigned_prototype b)"
      and 2: "map_of props ''__proto__'' = None"
      and 3: "\<And>k. k \<noteq> ''__proto__'' \<Longrightarrow>
                 map_of props k =
                   (case map_of (own_props b) k of Some v \<Rightarrow> Some v | None \<Rightarrow> map_of (fst ?m) k)"
    by blast
  have "map_of props k =
          (case map_of (own_props b) k of
             Some v \<Rightarrow> Some v
           | None \<Rightarrow> (case map_of (own_props a) k of Some v \<Rightarrow> Some v | None \<Rightarrow> map_of t k))"
    if "k \<noteq> ''__proto__''" for k
    by (simp add: 3[OF that] m3[OF that] cong: option.case_cong)
  with eq 1 2 show ?thesis by auto
qed

lemma typeof_string_iff: "typeof v = ''string'' \<longleftrightarrow> (\<exists>s. v = Str s)"
  by (cases v) simp_all

lemma typeof_undefined_iff: "typeof v = ''undefined'' \<longleftrightarrow> v = Undefined"
  by (cases v) simp_all

lemma nonempty_string_iff:
  "(typeof v = ''string'' \<and> truthy (read_prop v ''length'')) \<longleftrightarrow> (\<exists>s. v = Str s \<and> s \<noteq> [])"
  by (cases v) simp_all

section \<open>Committing events\<close>

lemma validateEvent_ObjP: "validateEvent (ObjP kvs p) = None \<longleftrightarrow> default_valid (ObjP kvs p)"
proof -
  have "typeof (ObjP kvs p) = ''object''" "truthy (ObjP kvs p)" by simp_all
  then show ?thesis
    unfolding validateEvent_def default_valid_def nonempty_string_iff[symmetric] typeof_undefined_iff[symmetric]
    by (simp del: read_prop.simps typeof.simps truthy.simps) blast
qed

lemma augmentEvents_Inr:
  "augmentEvents (Arr evs) sc h = Inr stream \<Longrightarrow>
   \<exists>ext. extension_of sc h = Inr ext \<and> stream = map (\<lambda>event. Object_assign [] [ext, event]) evs"
  by (auto simp: augmentEvents_def EventStream_from_def split: sum.splits)

lemma augmentEvents_returns:
  "sc \<noteq> Null \<Longrightarrow> \<exists>stream. augmentEvents (Arr evs) sc h = Inr stream"
  by (simp add: augmentEvents_def extension_of_def Let_def)

lemma augmented_is_ObjP:
  "augmentEvents (Arr evs) sc h = Inr stream \<Longrightarrow> ev \<in> set stream \<Longrightarrow> \<exists>kvs p. ev = ObjP kvs p"
  by (auto dest!: augmentEvents_Inr simp: Object_assign_def split: prod.splits)

lemma first_failure_mem: "first_failure f xs = Some e \<Longrightarrow> \<exists>y\<in>set xs. f y = Some e"
  by (induction xs) (auto split: option.splits)

lemma first_failure_None: "first_failure f xs = None \<longleftrightarrow> (\<forall>x\<in>set xs. f x = None)"
  by (induction xs) (auto split: option.splits)

lemma first_thrown_None: "first_thrown publish xs = None \<longleftrightarrow> (\<forall>x\<in>set xs. \<forall>e. publish x \<noteq> Throws e)"
  by (induction xs) (auto split: publish_outcome.splits)



lemma published_prefix: "\<exists>rest. xs = published publish xs @ rest"
  by (induction xs) (auto split: publish_outcome.splits)

lemma earliest_rejection_None:
  "earliest_rejection outcomes = None \<longleftrightarrow> (\<forall>outcome\<in>set outcomes. \<forall>t e. outcome \<noteq> Rejects t e)"
  by (induction outcomes rule: earliest_rejection.induct) (auto split: option.splits)



lemma publishEvents_Resolved:
  "fst (publishEvents publish stream fx) = Resolved () \<longleftrightarrow> (\<forall>ev\<in>set stream. publish ev = Fulfils)"
proof
  assume "fst (publishEvents publish stream fx) = Resolved ()"
  then have 1: "first_thrown publish stream = None"
    and 2: "earliest_rejection (map publish stream) = None"
    and 3: "Pends \<notin> set (map publish stream)"
    by (auto simp: publishEvents_def split: option.splits if_splits)
  show "\<forall>ev\<in>set stream. publish ev = Fulfils"
  proof
    fix ev assume ev: "ev \<in> set stream"
    with 1 have "\<forall>e. publish ev \<noteq> Throws e" by (simp add: first_thrown_None)
    moreover from 2 ev have "\<forall>t e. publish ev \<noteq> Rejects t e"
      by (simp add: earliest_rejection_None)
    moreover from 3 ev have "publish ev \<noteq> Pends" by force
    ultimately show "publish ev = Fulfils" by (cases "publish ev") simp_all
  qed
next
  assume a: "\<forall>ev\<in>set stream. publish ev = Fulfils"
  then have "first_thrown publish stream = None" by (simp add: first_thrown_None)
  moreover from a have "earliest_rejection (map publish stream) = None"
    by (simp add: earliest_rejection_None)
  moreover from a have "Pends \<notin> set (map publish stream)" by auto
  ultimately show "fst (publishEvents publish stream fx) = Resolved ()"
    by (simp add: publishEvents_def)
qed


lemma commit_sync_eq:
  assumes "\<not> config_publishAsync st" and "bus st = Bus publish"
    and "sourceCommand_of options = Inr sc"
    and "augmentEvents (Arr evs) sc (hostname_val (config_hostname st)) = Inr stream"
    and "evs \<noteq> []"
    and "first_failure (validator st) stream = None"
    and "storage_commitEvents st stream = Resolved ()"
  shows "commit st (Arr evs) options fx =
           ((case fst (publishEvents publish stream fx) of
               Rejected e \<Rightarrow> Rejected e
             | Pending \<Rightarrow> Pending
             | Resolved u \<Rightarrow> Resolved (Arr stream)),
            fx\<lparr>commitEvents_calls := commitEvents_calls fx @ [stream],
               publish_calls := publish_calls fx @ published publish stream\<rparr>)"
  using assms by (simp add: commit_def publishEvents_def split: option.splits)


lemma extension_of_Inr:
  "extension_of sc hostname = Inr ext \<Longrightarrow>
   ext = Obj [(''sagaId'', read_prop sc ''sagaId''),
              (''sagaVersion'', read_prop sc ''sagaVersion''),
              (''context'',
                 if truthy hostname
                 then Object_assign [(''hostname'', hostname)] [read_prop sc ''context'']
                 else read_prop sc ''context'')]"
  by (cases "sc = Undefined") (auto simp: extension_of_def Let_def split: if_splits)

text \<open>The own properties and the prototype of an augmented event.\<close>

lemma augmented_props:
  assumes "extension_of sc hostname = Inr ext"
  shows "\<exists>props. Object_assign [] [ext, event] = ObjP props (assigned_prototype event)
     \<and> map_of props ''__proto__'' = None
     \<and> (\<forall>k. k \<noteq> ''__proto__'' \<longrightarrow>
           map_of props k =
             (case map_of (own_props event) k of
                Some v \<Rightarrow> Some v
              | None \<Rightarrow>
                  if k = ''sagaId'' then Some (read_prop sc ''sagaId'')
                  else if k = ''sagaVersion'' then Some (read_prop sc ''sagaVersion'')
                  else if k = ''context''
                  then Some (if truthy hostname
                             then Object_assign [(''hostname'', hostname)] [read_prop sc ''context'']
                             else read_prop sc ''context'')
                  else None))"
proof -
  note ext = extension_of_Inr[OF assms]
  have a: "map_of (own_props ext) ''__proto__'' = None"
    by (simp add: ext map_of_clearjunk)
  have t: "map_of ([] :: (string \<times> jsval) list) ''__proto__'' = None" by simp
  from Object_assign2[OF t a, of event] obtain props
    where 1: "Object_assign [] [ext, event] = ObjP props (assigned_prototype event)"
      and 2: "map_of props ''__proto__'' = None"
      and 3: "\<And>k. k \<noteq> ''__proto__'' \<Longrightarrow>
                 map_of props k =
                   (case map_of (own_props event) k of
                      Some v \<Rightarrow> Some v
                    | None \<Rightarrow> (case map_of (own_props ext) k of Some v \<Rightarrow> Some v | None \<Rightarrow> map_of [] k))"
    by blast
  have "map_of props k =
             (case map_of (own_props event) k of
                Some v \<Rightarrow> Some v
              | None \<Rightarrow>
                  if k = ''sagaId'' then Some (read_prop sc ''sagaId'')
                  else if k = ''sagaVersion'' then Some (read_prop sc ''sagaVersion'')
                  else if k = ''context''
                  then Some (if truthy hostname
                             then Object_assign [(''hostname'', hostname)] [read_prop sc ''context'']
                             else read_prop sc ''context'')
                  else None)"
    if "k \<noteq> ''__proto__''" for k
    unfolding 3[OF that] by (simp add: ext map_of_clearjunk cong: option.case_cong)
  with 1 2 show ?thesis by blast
qed

text \<open>The own properties and the prototype of the context a store with a hostname adds.\<close>

lemma context_props:
  "\<exists>cprops. Object_assign [(''hostname'', hostname)] [ctx] = ObjP cprops (assigned_prototype ctx)
     \<and> map_of cprops ''__proto__'' = None
     \<and> (\<forall>k. k \<noteq> ''__proto__'' \<longrightarrow>
           map_of cprops k =
             (case map_of (own_props ctx) k of
                Some v \<Rightarrow> Some v
              | None \<Rightarrow> if k = ''hostname'' then Some hostname else None))"
proof -
  have t: "map_of [(''hostname'', hostname)] ''__proto__'' = None" by simp
  from Object_assign1[OF t, of ctx] obtain cprops
    where 1: "Object_assign [(''hostname'', hostname)] [ctx] = ObjP cprops (assigned_prototype ctx)"
      and 2: "map_of cprops ''__proto__'' = None"
      and 3: "\<And>k. k \<noteq> ''__proto__'' \<Longrightarrow>
                 map_of cprops k =
                   (case map_of (own_props ctx) k of
                      Some v \<Rightarrow> Some v
                    | None \<Rightarrow> map_of [(''hostname'', hostname)] k)"
    by blast
  have "map_of cprops k =
             (case map_of (own_props ctx) k of
                Some v \<Rightarrow> Some v
              | None \<Rightarrow> if k = ''hostname'' then Some hostname else None)"
    if "k \<noteq> ''__proto__''" for k
    unfolding 3[OF that] by (simp cong: option.case_cong)
  with 1 2 show ?thesis by blast
qed

lemma commit_resolves:
  assumes "sourceCommand_of options = Inr sc"
    and "augmentEvents (Arr evs) sc (hostname_val (config_hostname st)) = Inr stream"
    and "evs \<noteq> []"
    and "first_failure (validator st) stream = None"
    and "storage_commitEvents st stream = Resolved ()"
    and "config_publishAsync st \<or> bus st = No_bus
         \<or> (\<exists>publish. bus st = Bus publish \<and> (\<forall>ev\<in>set stream. publish ev = Fulfils))"
  shows "fst (commit st (Arr evs) options fx) = Resolved (Arr stream)"
proof (cases "bus st = No_bus")
  case True
  with assms(1-5) show ?thesis by (simp add: commit_def)
next
  case nb: False
  show ?thesis
  proof (cases "config_publishAsync st")
    case True
    with nb assms(1-5) show ?thesis by (cases "bus st") (simp_all add: commit_def)
  next
    case False
    with nb assms(6) obtain publish where b: "bus st = Bus publish"
      and f: "\<forall>ev\<in>set stream. publish ev = Fulfils" by blast
    from f have "fst (publishEvents publish stream fx) = Resolved ()" by (simp add: publishEvents_Resolved)
    then show ?thesis
      by (simp add: commit_sync_eq[OF False b assms(1-5)])
  qed
qed

lemma ex_sc: "sourceCommand_of example_options = Inr example_command"
  by code_simp

lemma ex_aug: "augmentEvents (Arr evs) example_command (hostname_val (config_hostname example_store)) = Inr (map augmented evs)"
proof -
  have "Object_assign [(''hostname'', Str ''node-1'')] [Obj [(''user'', Str ''u1'')]]
          = Obj [(''hostname'', Str ''node-1''), (''user'', Str ''u1'')]"
    by code_simp
  then show ?thesis
    unfolding augmented_def[abs_def]
    by (simp add: augmentEvents_def extension_of_def example_command_def example_store_def
          hostname_val_def EventStream_from_def)
qed

text \<open>
  Claim C9. \<^verbatim>\<open>commit\<close> called with an empty array makes no call of the storage and
  none of the bus (the effects are unchanged), and it resolves to the array it was given.
  The second argument of the call is any value but null, whose destructuring throws.
\<close>

theorem commit_empty:
  "snd (commit st (Arr []) options fx) = fx \<and>
   (options \<noteq> Null \<longrightarrow> fst (commit st (Arr []) options fx) = Resolved (Arr []))"
  by (simp add: commit_def sourceCommand_of_def get_prop_def split: sum.splits)

theorem commit_empty_witness:
  "example_options \<noteq> Null \<and>
   commit example_store (Arr []) example_options no_effects = (Resolved (Arr []), no_effects)"
proof -
  have h: "example_options \<noteq> Null" by (simp add: example_options_def)
  with commit_empty[of example_store example_options no_effects] show ?thesis
    by (simp add: prod_eq_iff)
qed

text \<open>
  Claim C2. When an augmented event of the array fails the validator of the store, or,
  for the default validator, when it does not have a non-empty string as its type, an
  \<^verbatim>\<open>aggregateId\<close> or a \<^verbatim>\<open>sagaId\<close>, and a \<^verbatim>\<open>sagaVersion\<close> beside a
  \<^verbatim>\<open>sagaId\<close>, the commit rejects, and the effects are those before the call: no call
  of the storage's \<^verbatim>\<open>commitEvents\<close>, no \<^verbatim>\<open>publish\<close>, no deferred publication.
\<close>

theorem commit_invalid_event:
  assumes "sourceCommand_of options = Inr sc"
    and "augmentEvents (Arr evs) sc (hostname_val (config_hostname st)) = Inr stream"
    and "ev \<in> set stream"
    and "validator st ev \<noteq> None \<or> (validator st = validateEvent \<and> \<not> default_valid ev)"
  shows "\<exists>e. commit st (Arr evs) options fx = (Rejected e, fx)"
proof -
  from assms(2,3) obtain kvs p where "ev = ObjP kvs p" by (blast dest: augmented_is_ObjP)
  with assms(4) have "validator st ev \<noteq> None"
    using validateEvent_ObjP[of kvs p] by auto
  with assms(3) have "first_failure (validator st) stream \<noteq> None"
    by (auto simp: first_failure_None)
  then obtain e' where "first_failure (validator st) stream = Some e'" by blast
  moreover from assms(3) have "evs \<noteq> []"
    using augmentEvents_Inr[OF assms(2)] by auto
  ultimately show ?thesis
    using assms(1,2) by (simp add: commit_def)
qed

theorem commit_invalid_event_witness:
  "sourceCommand_of example_options = Inr example_command \<and>
   augmented untyped \<in> set (map augmented [created, untyped]) \<and>
   validator example_store (augmented untyped) = Some (TypeError ''event.type must be a non-empty String'') \<and>
   commit example_store (Arr [created, untyped]) example_options no_effects
     = (Rejected (TypeError ''event.type must be a non-empty String''), no_effects)"
proof -
  have h3: "augmented untyped \<in> set (map augmented [created, untyped])" by simp
  have v: "validator example_store (augmented untyped) = Some (TypeError ''event.type must be a non-empty String'')"
    unfolding example_store_def by code_simp
  then have h4: "validator example_store (augmented untyped) \<noteq> None
      \<or> (validator example_store = validateEvent \<and> \<not> default_valid (augmented untyped))"
    by simp
  from commit_invalid_event[OF ex_sc ex_aug h3 h4, of no_effects]
  obtain e where e: "commit example_store (Arr [created, untyped]) example_options no_effects
     = (Rejected e, no_effects)" by blast
  have "fst (commit example_store (Arr [created, untyped]) example_options no_effects)
     = Rejected (TypeError ''event.type must be a non-empty String'')"
    unfolding example_store_def by code_simp
  with e have "e = TypeError ''event.type must be a non-empty String''" by simp
  with e ex_sc h3 v show ?thesis by simp
qed



text \<open>
  Claim C1. A commit of a non-empty array of events, valid once augmented, that the
  storage accepts and whose publications (when awaited) fulfil, resolves to a stream of
  the length of the array. Its \<open>i\<close>-th element is an object with these own
  properties: every own property of the \<open>i\<close>-th event but \<^verbatim>\<open>__proto__\<close>, with
  the value it has in the event; and, where the event has none of that name,
  \<^verbatim>\<open>sagaId\<close> and \<^verbatim>\<open>sagaVersion\<close> of the source command and \<^verbatim>\<open>context\<close>,
  the added context. An own \<^verbatim>\<open>__proto__\<close> property of the event is no property of
  the element: its value, when an object or null, is the prototype of the element.
  Without a configured hostname the added context is the context of the source command;
  with a hostname \<open>h\<close> it is an object made likewise of the own properties of that
  context, with \<^verbatim>\<open>hostname\<close> \<open>h\<close> where the context has no property of that name.
  (The augmentation itself returns for every source command but null.)
\<close>

theorem commit_augments:
  assumes "sourceCommand_of options = Inr sc"
    and "augmentEvents (Arr evs) sc (hostname_val (config_hostname st)) = Inr stream"
    and "evs \<noteq> []"
    and "\<forall>ev\<in>set stream. validator st ev = None"
    and "storage_commitEvents st stream = Resolved ()"
    and "config_publishAsync st \<or> bus st = No_bus
         \<or> (\<exists>publish. bus st = Bus publish \<and> (\<forall>ev\<in>set stream. publish ev = Fulfils))"
  shows "fst (commit st (Arr evs) options fx) = Resolved (Arr stream)
    \<and> length stream = length evs
    \<and> (\<exists>ctx.
          (\<forall>i<length evs. \<exists>props.
             stream ! i = ObjP props (assigned_prototype (evs ! i))
           \<and> map_of props ''__proto__'' = None
           \<and> (\<forall>k. k \<noteq> ''__proto__'' \<longrightarrow>
                 map_of props k =
                   (case map_of (own_props (evs ! i)) k of
                      Some v \<Rightarrow> Some v
                    | None \<Rightarrow>
                        if k = ''sagaId'' then Some (read_prop sc ''sagaId'')
                        else if k = ''sagaVersion'' then Some (read_prop sc ''sagaVersion'')
                        else if k = ''context'' then Some ctx
                        else None)))
        \<and> (case config_hostname st of
              None \<Rightarrow> ctx = read_prop sc ''context''
            | Some h \<Rightarrow>
                if h = [] then ctx = read_prop sc ''context''
                else \<exists>cprops.
                       ctx = ObjP cprops (assigned_prototype (read_prop sc ''context''))
                     \<and> map_of cprops ''__proto__'' = None
                     \<and> (\<forall>k. k \<noteq> ''__proto__'' \<longrightarrow>
                           map_of cprops k =
                             (case map_of (own_props (read_prop sc ''context'')) k of
                                Some v \<Rightarrow> Some v
                              | None \<Rightarrow> if k = ''hostname'' then Some (Str h) else None))))"
proof -
  let ?host = "hostname_val (config_hostname st)"
  let ?ctx = "if truthy ?host
                then Object_assign [(''hostname'', ?host)] [read_prop sc ''context'']
                else read_prop sc ''context''"
  from assms(2) obtain ext where ext: "extension_of sc ?host = Inr ext"
    and stream: "stream = map (\<lambda>event. Object_assign [] [ext, event]) evs"
    by (blast dest: augmentEvents_Inr)
  from assms(4) have v: "first_failure (validator st) stream = None"
    by (simp add: first_failure_None)
  have a: "fst (commit st (Arr evs) options fx) = Resolved (Arr stream)"
    by (rule commit_resolves[OF assms(1-3) v assms(5,6)])
  have b: "length stream = length evs" by (simp add: stream)
  have c: "\<forall>i<length evs. \<exists>props.
             stream ! i = ObjP props (assigned_prototype (evs ! i))
           \<and> map_of props ''__proto__'' = None
           \<and> (\<forall>k. k \<noteq> ''__proto__'' \<longrightarrow>
                 map_of props k =
                   (case map_of (own_props (evs ! i)) k of
                      Some v \<Rightarrow> Some v
                    | None \<Rightarrow>
                        if k = ''sagaId'' then Some (read_prop sc ''sagaId'')
                        else if k = ''sagaVersion'' then Some (read_prop sc ''sagaVersion'')
                        else if k = ''context'' then Some ?ctx
                        else None))"
  proof (intro allI impI)
    fix i assume "i < length evs"
    then have "stream ! i = Object_assign [] [ext, evs ! i]" by (simp add: stream)
    with augmented_props[OF ext, of "evs ! i"]
    show "\<exists>props.
             stream ! i = ObjP props (assigned_prototype (evs ! i))
           \<and> map_of props ''__proto__'' = None
           \<and> (\<forall>k. k \<noteq> ''__proto__'' \<longrightarrow>
                 map_of props k =
                   (case map_of (own_props (evs ! i)) k of
                      Some v \<Rightarrow> Some v
                    | None \<Rightarrow>
                        if k = ''sagaId'' then Some (read_prop sc ''sagaId'')
                        else if k = ''sagaVersion'' then Some (read_prop sc ''sagaVersion'')
                        else if k = ''context'' then Some ?ctx
                        else None))"
      by simp
  qed
  have d: "(case config_hostname st of
              None \<Rightarrow> ?ctx = read_prop sc ''context''
            | Some h \<Rightarrow>
                if h = [] then ?ctx = read_prop sc ''context''
                else \<exists>cprops.
                       ?ctx = ObjP cprops (assigned_prototype (read_prop sc ''context''))
                     \<and> map_of cprops ''__proto__'' = None
                     \<and> (\<forall>k. k \<noteq> ''__proto__'' \<longrightarrow>
                           map_of cprops k =
                             (case map_of (own_props (read_prop sc ''context'')) k of
                                Some v \<Rightarrow> Some v
                              | None \<Rightarrow> if k = ''hostname'' then Some (Str h) else None)))"
  proof (cases "config_hostname st")
    case None
    then show ?thesis by (simp add: hostname_val_def)
  next
    case (Some h)
    show ?thesis
    proof (cases "h = []")
      case True
      with Some show ?thesis by (simp add: hostname_val_def)
    next
      case False
      with Some have "?ctx = Object_assign [(''hostname'', Str h)] [read_prop sc ''context'']"
        by (simp add: hostname_val_def)
      with context_props[of "Str h" "read_prop sc ''context''"] Some False
      show ?thesis by simp
    qed
  qed
  from c d have "\<exists>ctx.
          (\<forall>i<length evs. \<exists>props.
             stream ! i = ObjP props (assigned_prototype (evs ! i))
           \<and> map_of props ''__proto__'' = None
           \<and> (\<forall>k. k \<noteq> ''__proto__'' \<longrightarrow>
                 map_of props k =
                   (case map_of (own_props (evs ! i)) k of
                      Some v \<Rightarrow> Some v
                    | None \<Rightarrow>
                        if k = ''sagaId'' then Some (read_prop sc ''sagaId'')
                        else if k = ''sagaVersion'' then Some (read_prop sc ''sagaVersion'')
                        else if k = ''context'' then Some ctx
                        else None)))
        \<and> (case config_hostname st of
              None \<Rightarrow> ctx = read_prop sc ''context''
            | Some h \<Rightarrow>
                if h = [] then ctx = read_prop sc ''context''
                else \<exists>cprops.
                       ctx = ObjP cprops (assigned_prototype (read_prop sc ''context''))
                     \<and> map_of cprops ''__proto__'' = None
                     \<and> (\<forall>k. k \<noteq> ''__proto__'' \<longrightarrow>
                           map_of cprops k =
                             (case map_of (own_props (read_prop sc ''context'')) k of
                                Some v \<Rightarrow> Some v
                              | None \<Rightarrow> if k = ''hostname'' then Some (Str h) else None)))"
    by (rule exI[of _ ?ctx, OF conjI])
  with a b show ?thesis by (intro conjI)
qed

theorem commit_augments_witness:
  "sourceCommand_of example_options = Inr example_command \<and>
   [created, inheriting] \<noteq> [] \<and>
   validator example_store (augmented created) = None \<and>
   validator example_store (augmented inheriting) = None \<and>
   storage_commitEvents example_store [augmented created, augmented inheriting] = Resolved () \<and>
   fst (commit example_store (Arr [created, inheriting]) example_options no_effects)
     = Resolved (Arr [augmented created, augmented inheriting]) \<and>
   augmented created =
     Obj [(''sagaId'', Str ''s1''), (''sagaVersion'', Num 2),
          (''context'', Obj [(''hostname'', Str ''node-1''), (''user'', Str ''u1'')]),
          (''type'', Str ''Created''), (''aggregateId'', Str ''a1'')] \<and>
   augmented inheriting =
     ObjP [(''sagaId'', Str ''s1''), (''sagaVersion'', Num 2),
           (''context'', Obj [(''hostname'', Str ''node-1''), (''user'', Str ''u1'')])]
          (Some (Obj [(''type'', Str ''Created''), (''aggregateId'', Str ''a1'')]))"
proof -
  have h3: "[created, inheriting] \<noteq> []" by simp
  have v: "validator example_store (augmented created) = None"
    "validator example_store (augmented inheriting) = None"
    unfolding example_store_def by code_simp+
  then have h4: "\<forall>ev\<in>set (map augmented [created, inheriting]). validator example_store ev = None"
    by simp
  have h5: "storage_commitEvents example_store (map augmented [created, inheriting]) = Resolved ()"
    by (simp add: example_store_def)
  define publish where "publish = (\<lambda>event. if read_prop event ''type'' = Str ''Renamed''
                           then Rejects 0 (Failure (Str ''bus down'')) else Fulfils)"
  have b: "bus example_store = Bus publish" by (simp add: example_store_def publish_def)
  have t: "read_prop (augmented created) ''type'' = Str ''Created''"
    "read_prop (augmented inheriting) ''type'' = Str ''Created''" by code_simp+
  then have "\<forall>ev\<in>set (map augmented [created, inheriting]). publish ev = Fulfils"
    by (simp add: publish_def)
  with b have h6: "config_publishAsync example_store \<or> bus example_store = No_bus
         \<or> (\<exists>publish. bus example_store = Bus publish \<and>
              (\<forall>ev\<in>set (map augmented [created, inheriting]). publish ev = Fulfils))"
    by blast
  from commit_augments[OF ex_sc ex_aug h3 h4 h5 h6, of no_effects]
  have r: "fst (commit example_store (Arr [created, inheriting]) example_options no_effects)
     = Resolved (Arr (map augmented [created, inheriting]))" by (rule conjunct1)
  have e1: "augmented created =
     Obj [(''sagaId'', Str ''s1''), (''sagaVersion'', Num 2),
          (''context'', Obj [(''hostname'', Str ''node-1''), (''user'', Str ''u1'')]),
          (''type'', Str ''Created''), (''aggregateId'', Str ''a1'')]" by code_simp
  have e2: "augmented inheriting =
     ObjP [(''sagaId'', Str ''s1''), (''sagaVersion'', Num 2),
           (''context'', Obj [(''hostname'', Str ''node-1''), (''user'', Str ''u1'')])]
          (Some (Obj [(''type'', Str ''Created''), (''aggregateId'', Str ''a1'')]))" by code_simp
  from r have r': "fst (commit example_store (Arr [created, inheriting]) example_options no_effects)
     = Resolved (Arr [augmented created, augmented inheriting])" by simp
  from h5 have h5': "storage_commitEvents example_store [augmented created, augmented inheriting] = Resolved ()"
    by simp
  from ex_sc h3 v h5' r' e1 e2 show ?thesis by (intro conjI)
qed

section \<open>Subscribing\<close>

lemma on_named_Inr:
  assumes "on st messageType handler options s = Inr s1"
    and "queueName_of options = Inr queueName" and "truthy queueName"
    and "\<not> emitter_supportsQueues st"
  shows "\<exists>h. handler = Fn h
     \<and> truthy (hostname_val (config_hostname st))
     \<and> map_of (namedQueues s) (ToString queueName @ '':'' @ ToString messageType) = None
     \<and> s1 = s\<lparr>namedQueues := AList.update (ToString queueName @ '':'' @ ToString messageType) h (namedQueues s),
               listeners := emitter_on (ToString messageType) (QueueHandler h) (listeners s)\<rparr>"
proof (cases handler)
  case (Fn h)
  with assms show ?thesis
    by (simp add: on_def Let_def split: if_splits)
next
  case (Val v)
  with assms show ?thesis
    by (simp add: on_def split: if_splits)
qed



lemma on_Inr_messageType:
  "on st messageType handler options s = Inr s1 \<Longrightarrow>
   typeof messageType = ''string'' \<and> truthy (read_prop messageType ''length'')"
  unfolding on_def by (cases "queueName_of options") (simp_all split: if_splits)

lemma on_duplicate:
  assumes "\<not> emitter_supportsQueues st"
    and "queueName_of options = Inr queueName" and "truthy queueName"
    and "truthy (hostname_val (config_hostname st))"
    and "typeof messageType = ''string''" and "truthy (read_prop messageType ''length'')"
    and "map_of (namedQueues s) (ToString queueName @ '':'' @ ToString messageType) = Some h"
  shows "on st messageType (Fn h2) options s =
           Inl (Error ([CHR 0x27] @ ToString queueName @ '':'' @ ToString messageType @ [CHR 0x27]
                               @ '' handler already set up on this node''))"
  unfolding on_def using assms by (simp add: Let_def)

lemma on_not_function:
  assumes "queueName_of options = Inr queueName"
    and "typeof messageType = ''string''" and "truthy (read_prop messageType ''length'')"
  shows "on st messageType (Val v) options s = Inl (TypeError ''handler argument must be a Function'')"
  unfolding on_def using assms by simp

lemma on_no_hostname:
  assumes "\<not> emitter_supportsQueues st"
    and "queueName_of options = Inr queueName" and "truthy queueName"
    and "\<not> truthy (hostname_val (config_hostname st))"
  shows "\<exists>e. on st messageType handler options s = Inl e"
  unfolding on_def using assms by (cases handler) simp_all

lemma once_Inr:
  assumes "once messageTypes handler filter_arg s0 = Inr (n, s1)"
  shows "n = length (once_subscriptions s0)"
    and "s1 = s0\<lparr>once_subscriptions := once_subscriptions s0 @
                   [\<lparr>once_messageTypes = messageTypes_of messageTypes,
                     once_handler = arg_function handler,
                     once_filter = arg_function filter_arg,
                     handled = False,
                     resolve_calls = []\<rparr>],
                 listeners := fold (\<lambda>messageType. emitter_on messageType (FilteredHandler n))
                                (messageTypes_of messageTypes) (listeners s0)\<rparr>"
  using assms unfolding once_def messageTypes_of_def Let_def
  by (auto split: if_splits)

lemma fold_emitter_on:
  "fold (\<lambda>t. emitter_on t l) ts ls = ls @ map (\<lambda>t. (t, l)) ts"
  by (induction ts arbitrary: ls) (simp_all add: emitter_on_def)

lemma mset_fold_removeListener:
  "mset (fold (\<lambda>t. emitter_removeListener t l) ts ls) = mset ls - mset (map (\<lambda>t. (t, l)) ts)"
  by (induction ts arbitrary: ls) (simp_all add: emitter_removeListener_def)


lemma filteredHandler_skip:
  assumes "\<not> qualifies (once_filter (once_subscriptions s ! n)) event"
  shows "snd (filteredHandler can_remove to_string run n event s) = s"
  using assms unfolding filteredHandler_def qualifies_def Let_def
  by (auto split: option.splits sum.splits)

lemma filteredHandler_handled:
  assumes "handled (once_subscriptions s ! n)"
  shows "snd (filteredHandler can_remove to_string run n event s) = s"
  using assms unfolding filteredHandler_def Let_def
  by (auto split: option.splits sum.splits)

lemma once_deliveries_skip:
  assumes "\<forall>event\<in>set events. \<not> qualifies (once_filter (once_subscriptions s ! n)) event"
  shows "once_deliveries can_remove to_string run n events s = s"
  using assms unfolding once_deliveries_def
  by (induction events) (simp_all add: filteredHandler_skip)

lemma once_deliveries_handled:
  assumes "handled (once_subscriptions s ! n)"
  shows "once_deliveries can_remove to_string run n events s = s"
  using assms unfolding once_deliveries_def
  by (induction events) (simp_all add: filteredHandler_handled)

lemma once_deliveries_append:
  "once_deliveries can_remove to_string run n (xs @ ys) s =
     once_deliveries can_remove to_string run n ys (once_deliveries can_remove to_string run n xs s)"
  by (simp add: once_deliveries_def)

lemma once_deliveries_Cons:
  "once_deliveries can_remove to_string run n (x # xs) s =
     once_deliveries can_remove to_string run n xs (snd (filteredHandler can_remove to_string run n x s))"
  by (simp add: once_deliveries_def)

lemma filteredHandler_fires:
  fixes run :: "'h \<Rightarrow> jsval \<Rightarrow> js_error option" and s :: "'h subscriptions"
    and to_string :: "jsval \<Rightarrow> js_error + string"
  assumes "qualifies (once_filter c) event" and "\<not> handled c" and "can_remove"
    and "c = once_subscriptions s ! n" and "n < length (once_subscriptions s)"
  defines "s' \<equiv> snd (filteredHandler can_remove to_string run n event s)"
  shows "handled (once_subscriptions s' ! n)"
    and "handler_calls s' = handler_calls s @
           (case once_handler c of None \<Rightarrow> [] | Some h \<Rightarrow> if logs to_string event then [(h, event)] else [])"
    and "resolve_calls (once_subscriptions s' ! n) =
           resolve_calls c @
             (if logs to_string event \<and> (\<forall>h. once_handler c = Some h \<longrightarrow> run h event = None)
              then [event] else [])"
    and "listeners s' = fold (\<lambda>messageType. emitter_removeListener messageType (FilteredHandler n))
                                         (once_messageTypes c) (listeners s)"
  using assms unfolding filteredHandler_def qualifies_def logs_def Let_def
  by (auto split: option.splits sum.splits)


lemma find_Some_split:
  "find P xs = Some x \<Longrightarrow> \<exists>pre post. xs = pre @ x # post \<and> P x \<and> (\<forall>y\<in>set pre. \<not> P y)"
proof (induction xs)
  case Nil
  then show ?case by simp
next
  case (Cons a xs)
  show ?case
  proof (cases "P a")
    case True
    with Cons.prems have "a = x" by simp
    with True have "a # xs = [] @ x # xs \<and> P x \<and> (\<forall>y\<in>set []. \<not> P y)" by simp
    then show ?thesis by blast
  next
    case False
    with Cons obtain pre post where "xs = pre @ x # post" "P x" "\<forall>y\<in>set pre. \<not> P y" by auto
    with False have "a # xs = (a # pre) @ x # post \<and> P x \<and> (\<forall>y\<in>set (a # pre). \<not> P y)" by simp
    then show ?thesis by blast
  qed
qed

lemma once_deliveries_first:
  fixes run :: "'h \<Rightarrow> jsval \<Rightarrow> js_error option" and s :: "'h subscriptions"
  assumes "find (qualifies (once_filter (once_subscriptions s ! n))) events = Some event"
    and "\<not> handled (once_subscriptions s ! n)" and "can_remove"
    and "n < length (once_subscriptions s)"
  shows "once_deliveries can_remove to_string run n events s = snd (filteredHandler can_remove to_string run n event s)"
proof -
  let ?c = "once_subscriptions s ! n"
  from find_Some_split[OF assms(1)] obtain pre post where ev: "events = pre @ event # post"
    and q: "qualifies (once_filter ?c) event" and pre: "\<forall>y\<in>set pre. \<not> qualifies (once_filter ?c) y"
    by blast
  have 1: "once_deliveries can_remove to_string run n pre s = s"
    using pre by (rule once_deliveries_skip)
  have 2: "handled (once_subscriptions (snd (filteredHandler can_remove to_string run n event s)) ! n)"
    using q assms(2,3) refl assms(4) by (rule filteredHandler_fires(1))
  show ?thesis
    unfolding ev once_deliveries_append once_deliveries_Cons 1
    using 2 by (rule once_deliveries_handled)
qed

lemma ex_q: "queueName_of queue_options = Inr (Str ''q1'')"
  by code_simp

lemma ex_on: "on example_store (Str ''Created'') (Fn ''h1'') queue_options no_subscriptions = Inr registered"
  by (simp add: on_def ex_q example_store_def hostname_val_def no_subscriptions_def
        registered_def emitter_on_def)

lemma ex_once: "once (Arr [Str ''A'', Str ''B'']) (Fn ''h1'') (Fn ok_filter) no_subscriptions = Inr (0, waiting)"
  by (simp add: once_def no_subscriptions_def waiting_def emitter_on_def)



text \<open>
  Claim C8. On a store whose emitter has no named queues: after a call of \<^verbatim>\<open>on\<close>
  with a queue name has succeeded, a second call with the same queue name and message
  type throws, whatever its handler, the error being "handler already set up on this
  node" when the handler is a function, while the key of the queue still maps to the first
  handler and its arrow function is still registered; and without a configured hostname
  a call with a queue name throws, no state being returned.
\<close>

theorem on_named_queue_twice:
  assumes "\<not> emitter_supportsQueues st"
    and "queueName_of options = Inr queueName" and "queueName_of options2 = Inr queueName"
    and "truthy queueName"
  shows "(on st messageType handler options s = Inr s1 \<longrightarrow>
           (\<exists>h e. handler = Fn h
              \<and> on st messageType handler2 options2 s1 = Inl e
              \<and> (\<forall>h2. handler2 = Fn h2 \<longrightarrow>
                    e = Error ([CHR 0x27] @ ToString queueName @ '':'' @ ToString messageType @ [CHR 0x27]
                               @ '' handler already set up on this node''))
              \<and> map_of (namedQueues s1) (ToString queueName @ '':'' @ ToString messageType) = Some h
              \<and> (ToString messageType, QueueHandler h) \<in> set (listeners s1)))
       \<and> (\<not> truthy (hostname_val (config_hostname st)) \<longrightarrow>
           (\<exists>e. on st messageType handler options s = Inl e))"
proof (intro conjI impI)
  let ?key = "ToString queueName @ '':'' @ ToString messageType"
  let ?err = "Error ([CHR 0x27] @ ToString queueName @ '':'' @ ToString messageType @ [CHR 0x27]
                               @ '' handler already set up on this node'')"
  assume ok: "on st messageType handler options s = Inr s1"
  from on_named_Inr[OF ok assms(2,4,1)] obtain h where h: "handler = Fn h"
    and t: "truthy (hostname_val (config_hostname st))"
    and s1: "s1 = s\<lparr>namedQueues := AList.update ?key h (namedQueues s),
             listeners := emitter_on (ToString messageType) (QueueHandler h) (listeners s)\<rparr>"
    by blast
  have k: "map_of (namedQueues s1) ?key = Some h" by (simp add: s1 update_conv')
  have l: "(ToString messageType, QueueHandler h) \<in> set (listeners s1)"
    by (simp add: s1 emitter_on_def)
  from on_Inr_messageType[OF ok]
  have m: "typeof messageType = ''string''" "truthy (read_prop messageType ''length'')"
    by (rule conjunct1, rule conjunct2)
  obtain e where e: "on st messageType handler2 options2 s1 = Inl e"
    and e': "\<forall>h2. handler2 = Fn h2 \<longrightarrow> e = ?err"
  proof (cases handler2)
    case (Fn h2)
    have "on st messageType handler2 options2 s1 = Inl ?err"
      unfolding Fn by (rule on_duplicate[OF assms(1,3,4) t m k])
    then show ?thesis by (rule that) (rule allI, rule impI, rule refl)
  next
    case (Val v)
    have "on st messageType handler2 options2 s1 = Inl (TypeError ''handler argument must be a Function'')"
      unfolding Val by (rule on_not_function[OF assms(3) m])
    then show ?thesis by (rule that) (simp add: Val)
  qed
  show "\<exists>h e. handler = Fn h
              \<and> on st messageType handler2 options2 s1 = Inl e
              \<and> (\<forall>h2. handler2 = Fn h2 \<longrightarrow> e = ?err)
              \<and> map_of (namedQueues s1) ?key = Some h
              \<and> (ToString messageType, QueueHandler h) \<in> set (listeners s1)"
    using h e e' k l by (intro exI conjI)
next
  assume "\<not> truthy (hostname_val (config_hostname st))"
  then show "\<exists>e. on st messageType handler options s = Inl e"
    by (rule on_no_hostname[OF assms(1,2,4)])
qed

theorem on_named_queue_twice_witness:
  "\<not> emitter_supportsQueues example_store \<and> truthy (Str ''q1'') \<and>
   on example_store (Str ''Created'') (Fn ''h1'') queue_options no_subscriptions = Inr registered \<and>
   on example_store (Str ''Created'') (Fn ''h2'') queue_options registered
     = Inl (Error ([CHR 0x27] @ ''q1:Created'' @ [CHR 0x27] @ '' handler already set up on this node'')) \<and>
   map_of (namedQueues registered) ''q1:Created'' = Some ''h1'' \<and>
   \<not> truthy (hostname_val (config_hostname (example_store\<lparr>config_hostname := None\<rparr>))) \<and>
   (\<exists>e. on (example_store\<lparr>config_hostname := None\<rparr>) (Str ''Created'') (Fn ''h1'') queue_options no_subscriptions = Inl e)"
proof -
  have h1: "\<not> emitter_supportsQueues example_store" by (simp add: example_store_def)
  have h1': "\<not> emitter_supportsQueues (example_store\<lparr>config_hostname := None\<rparr>)"
    by (simp add: example_store_def)
  have h4: "truthy (Str ''q1'')" by simp
  have h5: "\<not> truthy (hostname_val (config_hostname (example_store\<lparr>config_hostname := None\<rparr>)))"
    by (simp add: hostname_val_def)
  note t = on_named_queue_twice[OF h1 ex_q ex_q h4, of "Str ''Created''" "Fn ''h1''" no_subscriptions registered "Fn ''h2''"]
  from t ex_on obtain e where e: "on example_store (Str ''Created'') (Fn ''h2'') queue_options registered = Inl e"
    and e': "e = Error ([CHR 0x27] @ ToString (Str ''q1'') @ '':'' @ ToString (Str ''Created'') @ [CHR 0x27]
                               @ '' handler already set up on this node'')"
    and k: "map_of (namedQueues registered) (ToString (Str ''q1'') @ '':'' @ ToString (Str ''Created'')) = Some ''h1''"
    by auto
  note t2 = on_named_queue_twice[OF h1' ex_q ex_q h4, of "Str ''Created''" "Fn ''h1''" no_subscriptions registered "Fn ''h2''"]
  from t2 h5 have n: "\<exists>e. on (example_store\<lparr>config_hostname := None\<rparr>) (Str ''Created'') (Fn ''h1'') queue_options no_subscriptions = Inl e"
    by blast
  from e e' k have "on example_store (Str ''Created'') (Fn ''h2'') queue_options registered
     = Inl (Error ([CHR 0x27] @ ''q1:Created'' @ [CHR 0x27] @ '' handler already set up on this node''))"
     "map_of (namedQueues registered) ''q1:Created'' = Some ''h1''"
    by simp_all
  with h1 h4 ex_on h5 n show ?thesis by (intro conjI)
qed

lemma ex_once_A: "once (Str ''A'') (Fn ''h1'') (Val Undefined) no_subscriptions = Inr (0, listening)"
  by (simp add: once_def no_subscriptions_def listening_def emitter_on_def)


text \<open>
  Claim C6. After \<^verbatim>\<open>once(messageTypes, handler, filter)\<close> the closure is subscribed to
  every listed type. Whatever events the emitter then delivers to it, with an emitter that
  has a \<^verbatim>\<open>removeListener\<close> or an \<^verbatim>\<open>off\<close> method: if none passes the filter,
  nothing changes; otherwise, with the first event that passes, the emitter holds the
  subscriptions it held before the call of \<^verbatim>\<open>once\<close>, so none of the closure; the
  handler (when there is one) has been called exactly once, with that event, if the log
  line was reached (the event is neither undefined nor null and its type converts to a
  string), and not at all if not; and the promise has been resolved exactly once, with
  that event, if the log line was reached and the handler, when there is one, returned,
  and not at all if not. Events delivered after the first that passes change nothing.
\<close>

theorem once_fires_once:
  fixes run :: "'h \<Rightarrow> jsval \<Rightarrow> js_error option" and s0 :: "'h subscriptions"
    and to_string :: "jsval \<Rightarrow> js_error + string"
  assumes "once messageTypes handler filter_arg s0 = Inr (n, s1)" and "can_remove"
  shows "(\<forall>t\<in>set (messageTypes_of messageTypes). (t, FilteredHandler n) \<in> set (listeners s1))
    \<and> (case find (qualifies (arg_function filter_arg)) events of
          None \<Rightarrow> once_deliveries can_remove to_string run n events s1 = s1
        | Some event \<Rightarrow>
            handler_calls (once_deliveries can_remove to_string run n events s1) =
              handler_calls s1 @
                (case arg_function handler of
                   None \<Rightarrow> []
                 | Some h \<Rightarrow> if logs to_string event then [(h, event)] else [])
          \<and> resolve_calls (once_subscriptions (once_deliveries can_remove to_string run n events s1) ! n) =
              (if logs to_string event \<and> (\<forall>h. arg_function handler = Some h \<longrightarrow> run h event = None)
               then [event] else [])
          \<and> mset (listeners (once_deliveries can_remove to_string run n events s1)) = mset (listeners s0)
          \<and> ((\<forall>t. (t, FilteredHandler n) \<notin> set (listeners s0)) \<longrightarrow>
               (\<forall>t. (t, FilteredHandler n) \<notin> set (listeners (once_deliveries can_remove to_string run n events s1)))))"
proof -
  let ?types = "messageTypes_of messageTypes"
  let ?c = "\<lparr>once_messageTypes = ?types,
                     once_handler = arg_function handler,
                     once_filter = arg_function filter_arg,
                     handled = False,
                     resolve_calls = []\<rparr>"
  let ?end = "once_deliveries can_remove to_string run n events s1"
  note s1 = once_Inr(2)[OF assms(1)] and n = once_Inr(1)[OF assms(1)]
  have c: "once_subscriptions s1 ! n = ?c" by (simp add: s1 n)
  have len: "n < length (once_subscriptions s1)" by (simp add: s1 n)
  have l1: "listeners s1 = listeners s0 @ map (\<lambda>t. (t, FilteredHandler n)) ?types"
    by (simp add: s1 fold_emitter_on)
  have a: "\<forall>t\<in>set ?types. (t, FilteredHandler n) \<in> set (listeners s1)"
    by (simp add: l1)
  have b: "?end = s1"
    if "find (qualifies (arg_function filter_arg)) events = None"
  proof -
    from that have "\<forall>event\<in>set events. \<not> qualifies (once_filter (once_subscriptions s1 ! n)) event"
      by (simp add: find_None_iff c)
    then show ?thesis by (rule once_deliveries_skip)
  qed
  have d: "handler_calls ?end =
              handler_calls s1 @
                (case arg_function handler of
                   None \<Rightarrow> []
                 | Some h \<Rightarrow> if logs to_string event then [(h, event)] else [])
          \<and> resolve_calls (once_subscriptions ?end ! n) =
              (if logs to_string event \<and> (\<forall>h. arg_function handler = Some h \<longrightarrow> run h event = None)
               then [event] else [])
          \<and> mset (listeners ?end) = mset (listeners s0)
          \<and> ((\<forall>t. (t, FilteredHandler n) \<notin> set (listeners s0)) \<longrightarrow>
               (\<forall>t. (t, FilteredHandler n) \<notin> set (listeners ?end)))"
    if f: "find (qualifies (arg_function filter_arg)) events = Some event" for event
  proof -
    let ?s2 = "snd (filteredHandler can_remove to_string run n event s1)"
    from f have f': "find (qualifies (once_filter (once_subscriptions s1 ! n))) events = Some event"
      by (simp add: c)
    have nh: "\<not> handled (once_subscriptions s1 ! n)" by (simp add: c)
    have eq: "?end = ?s2"
      using f' nh assms(2) len by (rule once_deliveries_first)
    from f have q: "qualifies (once_filter (once_subscriptions s1 ! n)) event"
      by (auto simp: c dest: find_Some_split)
    note fires = filteredHandler_fires[OF q nh assms(2) refl len, of to_string run]
    have 1: "handler_calls ?s2 =
              handler_calls s1 @
                (case arg_function handler of
                   None \<Rightarrow> []
                 | Some h \<Rightarrow> if logs to_string event then [(h, event)] else [])"
      using fires(2) by (simp add: c)
    have 2: "resolve_calls (once_subscriptions ?s2 ! n) =
              (if logs to_string event \<and> (\<forall>h. arg_function handler = Some h \<longrightarrow> run h event = None)
               then [event] else [])"
      using fires(3) by (simp add: c)
    have "listeners ?s2 = fold (\<lambda>messageType. emitter_removeListener messageType (FilteredHandler n))
                                         ?types (listeners s1)"
      using fires(4) by (simp add: c)
    then have 3: "mset (listeners ?s2) = mset (listeners s0)"
      by (simp add: mset_fold_removeListener l1)
    then have "set (listeners ?s2) = set (listeners s0)" by (rule mset_eq_setD)
    then have 4: "(\<forall>t. (t, FilteredHandler n) \<notin> set (listeners s0)) \<longrightarrow>
               (\<forall>t. (t, FilteredHandler n) \<notin> set (listeners ?s2))" by simp
    from 1 2 3 4 show ?thesis unfolding eq by (intro conjI)
  qed
  show ?thesis
  proof (intro conjI)
    show "\<forall>t\<in>set ?types. (t, FilteredHandler n) \<in> set (listeners s1)" by (rule a)
  next
    show "case find (qualifies (arg_function filter_arg)) events of
          None \<Rightarrow> ?end = s1
        | Some event \<Rightarrow>
            handler_calls ?end =
              handler_calls s1 @
                (case arg_function handler of
                   None \<Rightarrow> []
                 | Some h \<Rightarrow> if logs to_string event then [(h, event)] else [])
          \<and> resolve_calls (once_subscriptions ?end ! n) =
              (if logs to_string event \<and> (\<forall>h. arg_function handler = Some h \<longrightarrow> run h event = None)
               then [event] else [])
          \<and> mset (listeners ?end) = mset (listeners s0)
          \<and> ((\<forall>t. (t, FilteredHandler n) \<notin> set (listeners s0)) \<longrightarrow>
               (\<forall>t. (t, FilteredHandler n) \<notin> set (listeners ?end)))"
    proof (cases "find (qualifies (arg_function filter_arg)) events")
      case None
      then show ?thesis using b by simp
    next
      case (Some event)
      then show ?thesis using d[of event] by simp
    qed
  qed
qed

theorem once_fires_once_witness:
  "once (Arr [Str ''A'', Str ''B'']) (Fn ''h1'') (Fn ok_filter) no_subscriptions = Inr (0, waiting) \<and>
   find (qualifies (Some ok_filter)) [ev_A_no, ev_B_yes, ev_A_yes] = Some ev_B_yes \<and>
   logs to_text ev_B_yes \<and>
   returns ''h1'' ev_B_yes = None \<and>
   handler_calls (once_deliveries True to_text returns 0 [ev_A_no, ev_B_yes, ev_A_yes] waiting) = [(''h1'', ev_B_yes)] \<and>
   resolve_calls (once_subscriptions (once_deliveries True to_text returns 0 [ev_A_no, ev_B_yes, ev_A_yes] waiting) ! 0)
     = [ev_B_yes] \<and>
   listeners (once_deliveries True to_text returns 0 [ev_A_no, ev_B_yes, ev_A_yes] waiting) = [] \<and>
   find (qualifies (Some ok_filter)) [ev_A_no] = None \<and>
   once_deliveries True to_text returns 0 [ev_A_no] waiting = waiting"
proof -
  have q: "\<not> qualifies (Some ok_filter) ev_A_no" "qualifies (Some ok_filter) ev_B_yes"
    by (simp_all add: qualifies_def ok_filter_def ev_A_no_def ev_B_yes_def)
  then have f: "find (qualifies (Some ok_filter)) [ev_A_no, ev_B_yes, ev_A_yes] = Some ev_B_yes"
    and g: "find (qualifies (Some ok_filter)) [ev_A_no] = None"
    by simp_all
  have l: "logs to_text ev_B_yes"
    by (simp add: logs_def get_prop_def to_text_def ev_B_yes_def)
  have r: "returns ''h1'' ev_B_yes = None" by (simp add: returns_def)
  have fresh: "\<forall>t. (t, FilteredHandler 0) \<notin> set (listeners no_subscriptions)"
    by (simp add: no_subscriptions_def)
  from once_fires_once[where run = returns and to_string = to_text
      and events = "[ev_A_no, ev_B_yes, ev_A_yes]", OF ex_once TrueI] f fresh l
  have a: "handler_calls (once_deliveries True to_text returns 0 [ev_A_no, ev_B_yes, ev_A_yes] waiting) =
              handler_calls waiting @ [(''h1'', ev_B_yes)]"
    and b: "resolve_calls (once_subscriptions (once_deliveries True to_text returns 0 [ev_A_no, ev_B_yes, ev_A_yes] waiting) ! 0) =
              (if returns ''h1'' ev_B_yes = None then [ev_B_yes] else [])"
    and c: "mset (listeners (once_deliveries True to_text returns 0 [ev_A_no, ev_B_yes, ev_A_yes] waiting)) = mset (listeners no_subscriptions)"
    by simp_all
  from once_fires_once[where run = returns and to_string = to_text and events = "[ev_A_no]", OF ex_once TrueI] g
  have d: "once_deliveries True to_text returns 0 [ev_A_no] waiting = waiting" by simp
  from a have a': "handler_calls (once_deliveries True to_text returns 0 [ev_A_no, ev_B_yes, ev_A_yes] waiting) = [(''h1'', ev_B_yes)]"
    by (simp add: waiting_def)
  from b r have b': "resolve_calls (once_subscriptions (once_deliveries True to_text returns 0 [ev_A_no, ev_B_yes, ev_A_yes] waiting) ! 0) = [ev_B_yes]"
    by simp
  from c have c': "listeners (once_deliveries True to_text returns 0 [ev_A_no, ev_B_yes, ev_A_yes] waiting) = []"
    by (simp add: no_subscriptions_def)
  from ex_once f l r a' b' c' g d show ?thesis by (intro conjI)
qed


text \<open>
  Not every event that passes the filter resolves the promise. After
  \<^verbatim>\<open>once('A', h1)\<close> with a handler that throws, an event of type \<^verbatim>\<open>A\<close>
  delivered twice leaves the handler called once, the error gone to the emitter, the
  subscription removed, and the promise not resolved.
\<close>

theorem once_throwing_handler_counterexample:
  "once (Str ''A'') (Fn ''h1'') (Val Undefined) no_subscriptions = Inr (0, listening) \<and>
   qualifies None ev_A_yes \<and>
   throws ''h1'' ev_A_yes = Some (Failure (Str ''handler failed'')) \<and>
   fst (filteredHandler True to_text throws 0 ev_A_yes listening) = Some (Failure (Str ''handler failed'')) \<and>
   handler_calls (once_deliveries True to_text throws 0 [ev_A_yes, ev_A_yes] listening) = [(''h1'', ev_A_yes)] \<and>
   listeners (once_deliveries True to_text throws 0 [ev_A_yes, ev_A_yes] listening) = [] \<and>
   resolve_calls (once_subscriptions (once_deliveries True to_text throws 0 [ev_A_yes, ev_A_yes] listening) ! 0) = []"
proof -
  have 1: "qualifies None ev_A_yes" by (simp add: qualifies_def)
  have 2: "throws ''h1'' ev_A_yes = Some (Failure (Str ''handler failed''))" by (simp add: throws_def)
  have t: "get_prop ev_A_yes ''type'' = Inr (Str ''A'')" by (simp add: get_prop_def ev_A_yes_def)
  have s: "filteredHandler True to_text throws 0 ev_A_yes listening =
      (Some (Failure (Str ''handler failed'')),
       \<lparr>namedQueues = [], listeners = [],
        once_subscriptions =
          [\<lparr>once_messageTypes = [''A''], once_handler = Some ''h1'',
            once_filter = None, handled = True, resolve_calls = []\<rparr>],
        handler_calls = [(''h1'', ev_A_yes)]\<rparr>)"
    by (simp add: filteredHandler_def listening_def t to_text_def throws_def emitter_removeListener_def)
  then have 3: "fst (filteredHandler True to_text throws 0 ev_A_yes listening) = Some (Failure (Str ''handler failed''))"
    by simp
  have e: "once_deliveries True to_text throws 0 [ev_A_yes, ev_A_yes] listening =
       \<lparr>namedQueues = [], listeners = [],
        once_subscriptions =
          [\<lparr>once_messageTypes = [''A''], once_handler = Some ''h1'',
            once_filter = None, handled = True, resolve_calls = []\<rparr>],
        handler_calls = [(''h1'', ev_A_yes)]\<rparr>"
    by (simp add: once_deliveries_def s) (simp add: filteredHandler_def)
  from e have 4: "handler_calls (once_deliveries True to_text throws 0 [ev_A_yes, ev_A_yes] listening) = [(''h1'', ev_A_yes)]"
    and 5: "listeners (once_deliveries True to_text throws 0 [ev_A_yes, ev_A_yes] listening) = []"
    and 6: "resolve_calls (once_subscriptions (once_deliveries True to_text throws 0 [ev_A_yes, ev_A_yes] listening) ! 0) = []"
    by simp_all
  from ex_once_A 1 2 3 4 5 6 show ?thesis by (intro conjI)
qed

section \<open>Replaying and emitting\<close>

lemma mutate_Inr:
  "mutate sm this e = Inr this' \<Longrightarrow>
   version this' = Suc (version this) \<and> changes this' = changes this
   \<and> aggregate_id this' = aggregate_id this \<and> (state this' = None \<longleftrightarrow> state this = None)"
  by (auto simp: mutate_def split: option.splits sum.splits)

lemma forEach_mutate_Inr:
  "forEach_mutate sm es this = Inr this' \<Longrightarrow>
   version this' = version this + length es \<and> changes this' = changes this
   \<and> aggregate_id this' = aggregate_id this \<and> (state this' = None \<longleftrightarrow> state this = None)"
proof (induction es arbitrary: this)
  case Nil
  then show ?case by simp
next
  case (Cons e es)
  from Cons.prems obtain this1 where 1: "mutate sm this e = Inr this1"
    and 2: "forEach_mutate sm es this1 = Inr this'"
    by (auto split: sum.splits)
  from Cons.IH[OF 2] mutate_Inr[OF 1] show ?case by simp
qed

lemma mutate_returns:
  assumes "\<forall>s e. \<exists>s'. sm s e = Inr s'"
  shows "\<exists>this'. mutate sm this e = Inr this'"
proof (cases "state this")
  case None
  then show ?thesis by (simp add: mutate_def)
next
  case (Some s)
  from assms obtain s' where "sm s e = Inr s'" by blast
  with Some show ?thesis by (simp add: mutate_def)
qed

lemma forEach_mutate_returns:
  assumes "\<forall>s e. \<exists>s'. sm s e = Inr s'"
  shows "\<exists>this'. forEach_mutate sm es this = Inr this'"
proof (induction es arbitrary: this)
  case Nil
  then show ?case by simp
next
  case (Cons e es)
  from mutate_returns[OF assms] obtain this1 where "mutate sm this e = Inr this1" by blast
  with Cons.IH[of this1] show ?case by simp
qed

lemma forEach_mutate_total:
  "forEach_mutate (\<lambda>s e. Inr (f s e)) es this =
     Inr (this\<lparr>state := map_option (\<lambda>s. foldl f s es) (state this),
               version := version this + length es\<rparr>)"
proof (induction es arbitrary: this)
  case Nil
  then show ?case by (cases "state this") simp_all
next
  case (Cons e es)
  show ?case
    by (cases "state this") (simp_all add: mutate_def Cons.IH)
qed

lemma JSON_parse_undefined:
  "JSON_parse Undefined = Some (Inl (SyntaxError ''Unexpected token in JSON''))"
  by code_simp

lemma ex_replay: "AbstractAggregate counting None (Some history) = Inr replayed"
  by (simp add: AbstractAggregate_def history_def replayed_def mutate_def counting_def)

text \<open>
  Claim C4. An aggregate constructed with an array of \<open>N\<close> historical events has
  version \<open>N\<close> and no changes. The construction returns whenever the id is truthy,
  the handlers validate and the \<^verbatim>\<open>mutate\<close> of the state never throws, and the state
  it leaves is the given state mutated with the events from first to last (no state when
  none was given).
\<close>

theorem replay_version:
  assumes "options_events options = Arr events"
  shows "(AbstractAggregate sm vh (Some options) = Inr a \<longrightarrow>
            version a = length events \<and> changes a = [])
    \<and> (truthy (options_id options) \<and> vh = None \<and> (\<forall>s e. \<exists>s'. sm s e = Inr s') \<longrightarrow>
          (\<exists>a. AbstractAggregate sm vh (Some options) = Inr a))
    \<and> (AbstractAggregate (\<lambda>s e. Inr (f s e)) vh (Some options) = Inr b \<longrightarrow>
          state b = map_option (\<lambda>s. foldl f s events) (options_state options))"
proof (intro conjI impI)
  assume "AbstractAggregate sm vh (Some options) = Inr a"
  with assms have "forEach_mutate sm events
      \<lparr>aggregate_id = options_id options, version = 0, changes = [], state = options_state options\<rparr> = Inr a"
    by (simp add: AbstractAggregate_def Let_def split: if_splits option.splits)
  from forEach_mutate_Inr[OF this] show "version a = length events" and "changes a = []"
    by simp_all
next
  assume a: "truthy (options_id options) \<and> vh = None \<and> (\<forall>s e. \<exists>s'. sm s e = Inr s')"
  then have "\<exists>a. forEach_mutate sm events
      \<lparr>aggregate_id = options_id options, version = 0, changes = [], state = options_state options\<rparr> = Inr a"
    by (intro forEach_mutate_returns) blast
  with a assms show "\<exists>a. AbstractAggregate sm vh (Some options) = Inr a"
    by (simp add: AbstractAggregate_def Let_def)
next
  assume "AbstractAggregate (\<lambda>s e. Inr (f s e)) vh (Some options) = Inr b"
  with assms have "forEach_mutate (\<lambda>s e. Inr (f s e)) events
      \<lparr>aggregate_id = options_id options, version = 0, changes = [], state = options_state options\<rparr> = Inr b"
    by (simp add: AbstractAggregate_def Let_def split: if_splits option.splits)
  then show "state b = map_option (\<lambda>s. foldl f s events) (options_state options)"
    by (auto simp: forEach_mutate_total)
qed

theorem replay_version_witness:
  "options_events history = Arr [created, renamed, created] \<and>
   truthy (options_id history) \<and>
   AbstractAggregate counting None (Some history) = Inr replayed \<and>
   version replayed = 3 \<and> changes replayed = [] \<and> state replayed = Some 3"
proof -
  have h: "options_events history = Arr [created, renamed, created]" by (simp add: history_def)
  have i: "truthy (options_id history)" by (simp add: history_def)
  have c: "counting = (\<lambda>s e. Inr (Suc s))" by (simp add: counting_def fun_eq_iff)
  from replay_version[OF h, of counting None replayed "\<lambda>s e. Suc s" replayed] ex_replay
  have "version replayed = length [created, renamed, created]" "changes replayed = []"
    "state replayed = map_option (\<lambda>s. foldl (\<lambda>s e. Suc s) s [created, renamed, created]) (options_state history)"
    unfolding c[symmetric] by simp_all
  then have "version replayed = 3" "changes replayed = []" "state replayed = Some 3"
    by (simp_all add: history_def)
  with h i ex_replay show ?thesis by (intro conjI)
qed

text \<open>
  Claim C5. \<^verbatim>\<open>emit\<close> with a non-empty string as event type, when it returns, has
  appended exactly the event with the aggregate's id, the version before the call, the
  type and the payload to the changes, has raised the version by one and has kept the id;
  it returns whenever the \<^verbatim>\<open>mutate\<close> of the state does not throw.
\<close>

theorem emit_appends:
  assumes "t \<noteq> []"
  shows "(emit sm this (Str t) eventPayload = Inr this' \<longrightarrow>
            changes this' = changes this @
              [Obj [(''aggregateId'', aggregate_id this),
                    (''version'', Num (int (version this))),
                    (''type'', Str t),
                    (''payload'', eventPayload)]]
          \<and> version this' = version this + 1
          \<and> aggregate_id this' = aggregate_id this)
    \<and> ((\<forall>s e. \<exists>s'. sm s e = Inr s') \<longrightarrow> (\<exists>this'. emit sm this (Str t) eventPayload = Inr this'))"
proof (intro conjI impI)
  let ?event = "emitted_event this (Str t) eventPayload"
  assume e: "emit sm this (Str t) eventPayload = Inr this'"
  with assms obtain this1 where 1: "mutate sm this ?event = Inr this1"
    and 2: "this' = this1\<lparr>changes := changes this1 @ [?event]\<rparr>"
    by (auto simp: emit_def Let_def split: sum.splits)
  from mutate_Inr[OF 1] 2
  show "changes this' = changes this @
              [Obj [(''aggregateId'', aggregate_id this),
                    (''version'', Num (int (version this))),
                    (''type'', Str t),
                    (''payload'', eventPayload)]]"
    and "version this' = version this + 1"
    and "aggregate_id this' = aggregate_id this"
    by (simp_all add: emitted_event_def)
next
  assume "\<forall>s e. \<exists>s'. sm s e = Inr s'"
  from mutate_returns[OF this] obtain this1
    where "mutate sm this (emitted_event this (Str t) eventPayload) = Inr this1" by blast
  with assms show "\<exists>this'. emit sm this (Str t) eventPayload = Inr this'"
    by (simp add: emit_def Let_def)
qed

theorem emit_appends_witness:
  "''Renamed'' \<noteq> [] \<and>
   emit counting replayed (Str ''Renamed'') (Str ''new name'') = Inr emitted \<and>
   changes emitted = changes replayed @
      [Obj [(''aggregateId'', Str ''a1''), (''version'', Num 3),
            (''type'', Str ''Renamed''), (''payload'', Str ''new name'')]] \<and>
   version emitted = version replayed + 1"
proof -
  have h: "''Renamed'' \<noteq> []" by simp
  have e: "emit counting replayed (Str ''Renamed'') (Str ''new name'') = Inr emitted"
    by (simp add: emit_def emitted_event_def mutate_def counting_def replayed_def emitted_def)
  from emit_appends[OF h, of counting replayed "Str ''new name''" emitted] e
  have "changes emitted = changes replayed @
              [Obj [(''aggregateId'', aggregate_id replayed),
                    (''version'', Num (int (version replayed))),
                    (''type'', Str ''Renamed''),
                    (''payload'', Str ''new name'')]]"
    and "version emitted = version replayed + 1"
    by simp_all
  then have "changes emitted = changes replayed @
      [Obj [(''aggregateId'', Str ''a1''), (''version'', Num 3),
            (''type'', Str ''Renamed''), (''payload'', Str ''new name'')]]"
    and "version emitted = version replayed + 1"
    by (simp_all add: replayed_def)
  with h e show ?thesis by (intro conjI)
qed

text \<open>
  Claim C10. An aggregate constructed without a state has no state, and reading its
  \<^verbatim>\<open>snapshot\<close> throws a \<^verbatim>\<open>SyntaxError\<close>: \<^verbatim>\<open>JSON.stringify\<close> of undefined is
  undefined, which \<^verbatim>\<open>JSON.parse\<close> reads as the text "undefined".
\<close>

theorem snapshot_without_state:
  assumes "AbstractAggregate sm vh (Some options) = Inr a"
    and "options_state options = None"
  shows "state a = None
     \<and> snapshot serial a = Some (Inl (SyntaxError ''Unexpected token in JSON''))"
proof -
  have "state a = None"
  proof (cases "truthy (options_events options)")
    case True
    with assms(1) have "forEach_mutate sm (elements (options_events options))
      \<lparr>aggregate_id = options_id options, version = 0, changes = [], state = options_state options\<rparr> = Inr a"
      by (simp add: AbstractAggregate_def Let_def split: if_splits option.splits)
    from forEach_mutate_Inr[OF this] assms(2) show ?thesis by simp
  next
    case False
    with assms show ?thesis
      by (auto simp: AbstractAggregate_def Let_def split: if_splits option.splits)
  qed
  then show ?thesis
    by (simp add: snapshot_def JSON_parse_undefined)
qed

theorem snapshot_without_state_witness:
  "AbstractAggregate counting None (Some stateless) = Inr without_state \<and>
   options_state stateless = None \<and>
   snapshot (\<lambda>n. Num (int n)) without_state = Some (Inl (SyntaxError ''Unexpected token in JSON''))"
proof -
  have a: "AbstractAggregate counting None (Some stateless) = Inr without_state"
    by (simp add: AbstractAggregate_def stateless_def without_state_def mutate_def)
  have b: "options_state stateless = None" by (simp add: stateless_def)
  from snapshot_without_state[OF a b, of "\<lambda>n. Num (int n)"] a b show ?thesis by simp
qed

end
